theory Spec2Isabelle
  imports Main "HOL-Library.Word"
begin

unbundle bit_operations_syntax

section \<open>Data model of \<open>src/memory.c\<close>\<close>

text \<open>
  The memory core works on byte buffers reached through pointers: the 64 KiB guest view
  \<open>mem->mem\<close> (a file mapping followed by an anonymous mapping), the heap buffer
  \<open>mem->ram_banks\<close> and the cartridge file behind \<open>mem->fd\<close>.  A buffer is a partial
  map from the byte offset to the byte stored there; an offset outside the mapped or
  allocated range has no byte, and a load or store there is a fault of the process
  (a segmentation fault, or a heap overrun, which C leaves undefined).  The code stores
  into the view only from offset \<open>0x8000\<close> on, where the mapping is read/write, so the
  protection of the pages is not part of the model.
\<close>

type_synonym u8 = "8 word"
type_synonym u64 = "64 word"
type_synonym region = "nat \<rightharpoonup> u8"

datatype fault = MemoryFault

text \<open>
  The enumeration behind \<open>mem->mbc\<close> is declared in \<open>memory.h\<close>; the switch of
  \<open>gb_memory_write\<close> names ten enumerators, every other cartridge code takes the
  \<open>default\<close> branch.
\<close>

datatype mbc_t =
    MBC_NONE
  | MBC1 | MBC1_RAM_BAT
  | MBC2 | MBC2_BAT
  | MBC3 | MBC3_RAM_BAT | MBC3_TIMER_RAM_BAT
  | MBC5 | MBC5_RAM_BAT
  | MBC_UNKNOWN u8

text \<open>
  The structures are declared in \<open>memory.h\<close> and \<open>core.h\<close>; the records hold the members
  \<open>memory.c\<close> uses.  The bank numbers and the two controller registers are integers: the
  code assigns them \<open>int\<close> values between 0 and \<open>0xff << 5\<close>, and reads \<open>mbc_data\<close> only
  through \<open>& 0x60\<close>, so their width in the header does not matter here.
\<close>

record gb_memory =
  mem :: region
  ram_banks :: region
  filename :: "string option"
  fd :: int
  mbc :: mbc_t
  mbc_mode :: int
  mbc_data :: int
  current_rom_bank :: int
  current_ram_bank :: int
  rtc_access :: bool

record gb_keys =
  state :: u8

text \<open>
  A compiled block, as far as this file reads it; the block for the code that starts at
  \<open>0xff80 + i\<close> is \<open>highmem_blocks[i]\<close>.  The loop of \<open>gb_memory_write\<close> reads the
  table at indices below \<open>0x7f\<close> only.
\<close>

record gb_block =
  exec_count :: nat
  end_address :: nat

text \<open>
  \<open>gb_memory_write\<close> receives a \<open>gb_state *\<close> and casts it to the \<open>gb_vm *\<close> it is the
  first member of.  The record holds the members the function touches: \<open>state->mem\<close>
  (here \<open>memory\<close>, since \<open>mem\<close> is the byte view inside it), \<open>state->keys\<close> and
  \<open>vm->highmem_blocks\<close>.
\<close>

record gb_vm =
  memory :: gb_memory
  keys :: gb_keys
  highmem_blocks :: "nat \<Rightarrow> gb_block"

text \<open>
  What the operating system answers during one call of \<open>gb_memory_write\<close>: whether
  \<open>munmap\<close> and \<open>mmap\<close> succeed, and the bytes of the cartridge file a mapping of
  \<open>mem->fd\<close> exposes.
\<close>

record sys =
  munmap_ok :: bool
  mmap_ok :: bool
  rom_file :: region

section \<open>Buffers\<close>

definition accessible :: "region \<Rightarrow> nat \<Rightarrow> nat \<Rightarrow> bool" where
  "accessible r a n = (\<forall>i\<in>{0..<n}. r (a + i) \<noteq> None)"

text \<open>
  \<open>memcpy (dst + d, src + s, n)\<close> where both ranges are accessible.  All source bytes are
  read from \<open>src\<close> as it is before the copy; the only overlapping copy in this file has
  source and destination identical (the DMA page \<open>0xfe\<close>).
\<close>

definition copy_bytes :: "region \<Rightarrow> nat \<Rightarrow> region \<Rightarrow> nat \<Rightarrow> nat \<Rightarrow> region" where
  "copy_bytes dst d src s n = (\<lambda>a. if d \<le> a \<and> a < d + n then src (s + (a - d)) else dst a)"

definition memcpy_chk :: "region \<Rightarrow> nat \<Rightarrow> region \<Rightarrow> nat \<Rightarrow> nat \<Rightarrow> fault + region" where
  "memcpy_chk dst d src s n =
     (if accessible dst d n \<and> accessible src s n then Inr (copy_bytes dst d src s n)
      else Inl MemoryFault)"

text \<open>The store \<open>mem[a] = v\<close>.\<close>

definition poke :: "region \<Rightarrow> nat \<Rightarrow> u8 \<Rightarrow> fault + region" where
  "poke r a v = (if r a = None then Inl MemoryFault else Inr (r(a \<mapsto> v)))"

text \<open>\<open>munmap (mem + a, n)\<close> and \<open>mmap (mem + a, n, ..., MAP_FIXED, fd, off)\<close> on the view.\<close>

definition unmap :: "region \<Rightarrow> nat \<Rightarrow> nat \<Rightarrow> region" where
  "unmap r a n = (\<lambda>x. if a \<le> x \<and> x < a + n then None else r x)"

definition map_file :: "region \<Rightarrow> nat \<Rightarrow> nat \<Rightarrow> region \<Rightarrow> nat \<Rightarrow> region" where
  "map_file r a n file off = (\<lambda>x. if a \<le> x \<and> x < a + n then file (off + (x - a)) else r x)"

section \<open>The operations\<close>

definition get_joypad_state :: "gb_keys \<Rightarrow> u8 \<Rightarrow> u8" where
  "get_joypad_state ks v =
     (let result = 0;
          result = (if v AND NOT 0x10 \<noteq> 0 then result OR (state ks AND 0x0f) else result);
          result = (if v AND NOT 0x20 \<noteq> 0 then result OR drop_bit 4 (state ks) else result)
      in NOT result)"

text \<open>
  \<open>gb_memory_change_ram_bank\<close>.  A bank index outside the heap buffer makes the
  \<open>memcpy\<close> run over the end of the allocation: a fault.
\<close>

definition bank_offset :: "int \<Rightarrow> nat" where
  "bank_offset bank = nat (bank * 0x2000)"

definition gb_memory_change_ram_bank :: "gb_memory \<Rightarrow> int \<Rightarrow> fault + gb_memory" where
  "gb_memory_change_ram_bank m bank =
     (if current_ram_bank m = bank then Inr m
      else
        (case (if \<not> rtc_access m
               then (if 0 \<le> current_ram_bank m
                     then memcpy_chk (ram_banks m) (bank_offset (current_ram_bank m))
                            (mem m) 0xa000 0x2000
                     else Inl MemoryFault)
               else Inr (ram_banks m)) of
           Inl f \<Rightarrow> Inl f
         | Inr rb \<Rightarrow>
            (case (if 0 \<le> bank then memcpy_chk (mem m) 0xa000 rb (bank_offset bank) 0x2000
                   else Inl MemoryFault) of
               Inl f \<Rightarrow> Inl f
             | Inr w \<Rightarrow>
                 Inr (m\<lparr>mem := w, ram_banks := rb, rtc_access := False,
                        current_ram_bank := bank\<rparr>))))"

text \<open>
  \<open>gb_memory_change_rom_bank\<close>.  Both early returns after a failed system call leave
  \<open>current_rom_bank\<close> as it was; after a successful \<open>munmap\<close> and a failed \<open>mmap\<close> the
  window is no longer mapped.  A negative file offset is refused by \<open>mmap\<close>.
\<close>

definition gb_memory_change_rom_bank :: "sys \<Rightarrow> gb_memory \<Rightarrow> int \<Rightarrow> gb_memory" where
  "gb_memory_change_rom_bank os m bank =
     (if current_rom_bank m = bank then m
      else if \<not> munmap_ok os then m
      else if \<not> mmap_ok os \<or> bank < 0 then m\<lparr>mem := unmap (mem m) 0x4000 0x4000\<rparr>
      else m\<lparr>mem := map_file (unmap (mem m) 0x4000 0x4000) 0x4000 0x4000 (rom_file os)
                       (nat (0x4000 * bank)),
             current_rom_bank := bank\<rparr>)"

definition gb_memory_access_rtc :: "gb_memory \<Rightarrow> int \<Rightarrow> fault + gb_memory" where
  "gb_memory_access_rtc m elt =
     (case poke (mem m) 0xa000 0 of
        Inl f \<Rightarrow> Inl f
      | Inr w \<Rightarrow> Inr (m\<lparr>mem := w, rtc_access := True\<rparr>))"

definition gb_memory_update_rtc_time :: "gb_memory \<Rightarrow> int \<Rightarrow> gb_memory" where
  "gb_memory_update_rtc_time m v = m"

text \<open>The three bodies of the switch on \<open>state->mem->mbc\<close>, for an address below \<open>0x8000\<close>.\<close>

definition mbc1_write :: "sys \<Rightarrow> gb_memory \<Rightarrow> nat \<Rightarrow> u8 \<Rightarrow> fault + gb_memory" where
  "mbc1_write os m addr v =
     (if addr \<ge> 0x6000 then Inr (m\<lparr>mbc_mode := uint (v AND 0x01)\<rparr>)
      else if addr \<ge> 0x4000 then
        (if mbc_mode m \<noteq> 0 then gb_memory_change_ram_bank m (uint v)
         else Inr (m\<lparr>mbc_data := push_bit 5 (uint v)\<rparr>))
      else if addr \<ge> 0x2000 then
        (let bank = uint (v AND 0x1f) OR (if mbc_mode m \<noteq> 0 then 0 else mbc_data m AND 0x60);
             bank = (if bank AND 0x1f = 0 then bank OR 1 else bank)
         in Inr (gb_memory_change_rom_bank os m bank))
      else Inr m)"

definition mbc3_write :: "sys \<Rightarrow> gb_memory \<Rightarrow> nat \<Rightarrow> u8 \<Rightarrow> fault + gb_memory" where
  "mbc3_write os m addr v =
     (if addr \<ge> 0x6000 then Inr (gb_memory_update_rtc_time m (uint v))
      else if addr \<ge> 0x4000 then
        (if v \<le> 4 then gb_memory_change_ram_bank m (uint v)
         else gb_memory_access_rtc m (uint v))
      else if addr \<ge> 0x2000 then
        (let bank = uint (v AND 0x7f);
             bank = (if bank = 0 then 1 else bank)
         in Inr (gb_memory_change_rom_bank os m bank))
      else Inr m)"

definition mbc5_write :: "sys \<Rightarrow> gb_memory \<Rightarrow> nat \<Rightarrow> u8 \<Rightarrow> fault + gb_memory" where
  "mbc5_write os m addr v =
     (if addr \<ge> 0x4000 then gb_memory_change_ram_bank m (uint v)
      else if addr \<ge> 0x2000 then
        (let bank = uint v in Inr (gb_memory_change_rom_bank os m bank))
      else Inr m)"

definition mbc_write :: "sys \<Rightarrow> gb_memory \<Rightarrow> nat \<Rightarrow> u8 \<Rightarrow> fault + gb_memory" where
  "mbc_write os m addr v =
     (case mbc m of
        MBC_NONE \<Rightarrow> Inr m
      | MBC2_BAT \<Rightarrow> mbc1_write os m addr v
      | MBC2 \<Rightarrow> mbc1_write os m addr v
      | MBC1_RAM_BAT \<Rightarrow> mbc1_write os m addr v
      | MBC1 \<Rightarrow> mbc1_write os m addr v
      | MBC3_TIMER_RAM_BAT \<Rightarrow> mbc3_write os m addr v
      | MBC3_RAM_BAT \<Rightarrow> mbc3_write os m addr v
      | MBC3 \<Rightarrow> mbc3_write os m addr v
      | MBC5_RAM_BAT \<Rightarrow> mbc5_write os m addr v
      | MBC5 \<Rightarrow> mbc5_write os m addr v
      | MBC_UNKNOWN c \<Rightarrow> Inr m)"

text \<open>
  The loop of the high-memory branch, from index \<open>i\<close> on.  \<open>free_block\<close> belongs to the
  translator and is a parameter here.
\<close>

function invalidate_blocks ::
  "(gb_block \<Rightarrow> gb_block) \<Rightarrow> nat \<Rightarrow> nat \<Rightarrow> (nat \<Rightarrow> gb_block) \<Rightarrow> (nat \<Rightarrow> gb_block)" where
  "invalidate_blocks free_block addr i bs =
     (if i < addr - 0xff80 then
        invalidate_blocks free_block addr (Suc i)
          (if exec_count (bs i) \<noteq> 0 \<and> end_address (bs i) > addr
           then bs(i := (free_block (bs i))\<lparr>exec_count := 0\<rparr>)
           else bs)
      else bs)"
  by pat_completeness auto
termination
  by (relation "measure (\<lambda>(f, addr, i, bs). addr - 0xff80 - i)") auto

declare invalidate_blocks.simps [simp del]

text \<open>Writing the new byte view back into the machine.\<close>

definition set_mem :: "gb_vm \<Rightarrow> fault + region \<Rightarrow> fault + gb_vm" where
  "set_mem s r = (case r of Inl f \<Rightarrow> Inl f | Inr w \<Rightarrow> Inr (s\<lparr>memory := (memory s)\<lparr>mem := w\<rparr>\<rparr>))"

definition gb_memory_write ::
  "sys \<Rightarrow> (gb_block \<Rightarrow> gb_block) \<Rightarrow> gb_vm \<Rightarrow> u64 \<Rightarrow> u64 \<Rightarrow> fault + gb_vm" where
  "gb_memory_write os free_block s addr0 value0 =
     (let addr = unat (addr0 AND 0xffff);
          v = (ucast (value0 AND 0xff) :: u8);
          m = mem (memory s)
      in
      if addr < 0x8000 then
        (case mbc_write os (memory s) addr v of
           Inl f \<Rightarrow> Inl f
         | Inr m' \<Rightarrow> Inr (s\<lparr>memory := m'\<rparr>))
      else if addr = 0xff05 then set_mem s (poke m addr 0)
      else if addr = 0xff00 then set_mem s (poke m addr (get_joypad_state (keys s) v))
      else if addr = 0xff01 then Inr s
      else if addr = 0xff46 then
        set_mem s
          (case poke m addr v of
             Inl f \<Rightarrow> Inl f
           | Inr w \<Rightarrow> memcpy_chk w 0xfe00 w (unat v * 0x100) 0xa0)
      else if addr \<ge> 0xff80 then
        set_mem (s\<lparr>highmem_blocks := invalidate_blocks free_block addr 0 (highmem_blocks s)\<rparr>)
          (poke m addr v)
      else set_mem s (poke m addr v))"

text \<open>A sequence of guest stores, each with what the operating system answers during it.\<close>

fun run_writes ::
  "(gb_block \<Rightarrow> gb_block) \<Rightarrow> gb_vm \<Rightarrow> (sys \<times> u64 \<times> u64) list \<Rightarrow> fault + gb_vm" where
  "run_writes free_block s [] = Inr s"
| "run_writes free_block s ((os, addr, v) # ws) =
     (case gb_memory_write os free_block s addr v of
        Inl f \<Rightarrow> Inl f
      | Inr s' \<Rightarrow> run_writes free_block s' ws)"

section \<open>Initialisation\<close>

text \<open>
  What the operating system answers during \<open>gb_memory_init\<close>: the descriptor \<open>open\<close>
  returns (negative on failure), whether the first and the second \<open>mmap\<close> of the call
  succeed, the bytes a mapping of the file exposes, and what \<open>malloc\<close> hands out (the
  bytes of a fresh allocation are arbitrary; a failed \<open>malloc\<close> gives a null pointer,
  behind which nothing is accessible).
\<close>

record init_sys =
  open_fd :: int
  first_mmap_ok :: bool
  second_mmap_ok :: bool
  cartridge :: region
  malloc_ok :: bool
  heap_bytes :: "nat \<Rightarrow> u8"

definition map_anon :: "region \<Rightarrow> nat \<Rightarrow> nat \<Rightarrow> region" where
  "map_anon r a n = (\<lambda>x. if a \<le> x \<and> x < a + n then Some 0 else r x)"

definition malloc_region :: "init_sys \<Rightarrow> nat \<Rightarrow> region" where
  "malloc_region ios n =
     (if malloc_ok ios then (\<lambda>x. if x < n then Some (heap_bytes ios x) else None)
      else Map.empty)"

text \<open>
  The assignments after the mappings are in place.  \<open>cartridge_type\<close> reads the header
  byte \<open>0x0147\<close> as an enumerator and \<open>max_ram_banks\<close> is \<open>MAX_RAM_BANKS\<close>; both are
  declared in \<open>memory.h\<close> and are parameters here.
\<close>

definition init_fields ::
  "(u8 \<Rightarrow> mbc_t) \<Rightarrow> nat \<Rightarrow> init_sys \<Rightarrow> gb_memory \<Rightarrow> string option \<Rightarrow> fault + gb_memory" where
  "init_fields cartridge_type max_ram_banks ios m fname =
     (case mem m 0x0147 of
        None \<Rightarrow> Inl MemoryFault
      | Some c \<Rightarrow>
          Inr (m\<lparr>ram_banks := malloc_region ios (max_ram_banks * 0x2000),
                 filename := fname,
                 mbc := cartridge_type c,
                 mbc_mode := 0,
                 mbc_data := 0,
                 current_rom_bank := 1,
                 current_ram_bank := 0,
                 rtc_access := False\<rparr>))"

text \<open>
  \<open>gb_memory_init\<close>.  The result is the returned flag, the structure \<open>*mem\<close> as the call
  leaves it, and the set of file descriptors the process holds afterwards (\<open>fds\<close> before
  the call).  The mappings the process holds are the domain of \<open>mem\<close>.
\<close>

definition gb_memory_init ::
  "(u8 \<Rightarrow> mbc_t) \<Rightarrow> nat \<Rightarrow> init_sys \<Rightarrow> int set \<Rightarrow> gb_memory \<Rightarrow> string option
     \<Rightarrow> fault + (bool \<times> gb_memory \<times> int set)" where
  "gb_memory_init cartridge_type max_ram_banks ios fds m fname =
     (case fname of
        None \<Rightarrow>
          (if \<not> first_mmap_ok ios then Inr (False, m\<lparr>mem := Map.empty, fd := - 1\<rparr>, fds)
           else
             (case init_fields cartridge_type max_ram_banks ios
                     (m\<lparr>mem := map_anon Map.empty 0 0x10000, fd := - 1\<rparr>) fname of
                Inl f \<Rightarrow> Inl f
              | Inr m' \<Rightarrow> Inr (True, m', fds)))
      | Some name \<Rightarrow>
          (if open_fd ios < 0 then Inr (False, m\<lparr>fd := open_fd ios\<rparr>, fds)
           else if \<not> first_mmap_ok ios then
             Inr (False, m\<lparr>mem := Map.empty, fd := open_fd ios\<rparr>, insert (open_fd ios) fds)
           else if \<not> second_mmap_ok ios then
             Inr (False,
                  m\<lparr>mem := map_file Map.empty 0 0x8000 (cartridge ios) 0, fd := open_fd ios\<rparr>,
                  insert (open_fd ios) fds)
           else
             (case init_fields cartridge_type max_ram_banks ios
                     (m\<lparr>mem := map_anon (map_file Map.empty 0 0x8000 (cartridge ios) 0)
                                  0x8000 0x8000,
                        fd := open_fd ios\<rparr>) fname of
                Inl f \<Rightarrow> Inl f
              | Inr m' \<Rightarrow> Inr (True, m', insert (open_fd ios) fds))))"

text \<open>
  The states of a session: what a successful \<open>gb_memory_init\<close> leaves (with any key state
  and any table of blocks), and every state a guest store leads to from there.
\<close>

inductive reachable :: "(u8 \<Rightarrow> mbc_t) \<Rightarrow> nat \<Rightarrow> gb_vm \<Rightarrow> bool"
  for cartridge_type :: "u8 \<Rightarrow> mbc_t" and max_ram_banks :: nat where
  reach_init:
    "gb_memory_init cartridge_type max_ram_banks ios fds m0 fname = Inr (True, m, fds')
     \<Longrightarrow> reachable cartridge_type max_ram_banks
           \<lparr>memory = m, keys = ks, highmem_blocks = bs\<rparr>"
| reach_write:
    "reachable cartridge_type max_ram_banks s
     \<Longrightarrow> gb_memory_write os free_block s addr v = Inr s'
     \<Longrightarrow> reachable cartridge_type max_ram_banks s'"

section \<open>Example inputs\<close>

text \<open>
  The examples below instantiate \<open>cartridge_type\<close> with the codes the cartridge header
  uses at byte \<open>0x0147\<close> for the ten kinds the switch names, and \<open>max_ram_banks\<close> with 16.
\<close>

definition header_type :: "u8 \<Rightarrow> mbc_t" where
  "header_type c =
     (if c = 0x00 then MBC_NONE
      else if c = 0x01 then MBC1
      else if c = 0x03 then MBC1_RAM_BAT
      else if c = 0x05 then MBC2
      else if c = 0x06 then MBC2_BAT
      else if c = 0x10 then MBC3_TIMER_RAM_BAT
      else if c = 0x11 then MBC3
      else if c = 0x13 then MBC3_RAM_BAT
      else if c = 0x19 then MBC5
      else if c = 0x1b then MBC5_RAM_BAT
      else MBC_UNKNOWN c)"

text \<open>A cartridge of 64 banks whose header byte \<open>0x0147\<close> is \<open>c\<close>, every other byte zero.\<close>

definition blank_rom :: "u8 \<Rightarrow> region" where
  "blank_rom c = (\<lambda>x. if x < 0x100000 then Some (if x = 0x0147 then c else 0) else None)"

definition good_init :: "u8 \<Rightarrow> init_sys" where
  "good_init c =
     \<lparr>open_fd = 3, first_mmap_ok = True, second_mmap_ok = True, cartridge = blank_rom c,
      malloc_ok = True, heap_bytes = (\<lambda>x. 0)\<rparr>"

definition good_sys :: "u8 \<Rightarrow> sys" where
  "good_sys c = \<lparr>munmap_ok = True, mmap_ok = True, rom_file = blank_rom c\<rparr>"

text \<open>The structure before \<open>gb_memory_init\<close> fills it.\<close>

definition blank_memory :: gb_memory where
  "blank_memory =
     \<lparr>mem = Map.empty, ram_banks = Map.empty, filename = None, fd = 0, mbc = MBC_NONE,
      mbc_mode = 0, mbc_data = 0, current_rom_bank = 0, current_ram_bank = 0,
      rtc_access = False\<rparr>"

text \<open>The session a cartridge with header byte \<open>c\<close> starts in: no key pressed, no block compiled.\<close>

definition session_memory :: "u8 \<Rightarrow> gb_memory" where
  "session_memory c =
     \<lparr>mem = map_anon (map_file Map.empty 0 0x8000 (blank_rom c) 0) 0x8000 0x8000,
      ram_banks = (\<lambda>x. if x < 16 * 0x2000 then Some 0 else None),
      filename = Some ''rom.gb'', fd = 3, mbc = header_type c,
      mbc_mode = 0, mbc_data = 0, current_rom_bank = 1, current_ram_bank = 0,
      rtc_access = False\<rparr>"

definition session :: "u8 \<Rightarrow> gb_vm" where
  "session c =
     \<lparr>memory = session_memory c, keys = \<lparr>state = 0\<rparr>,
      highmem_blocks = (\<lambda>i. \<lparr>exec_count = 0, end_address = 0\<rparr>)\<rparr>"

text \<open>
  A session with every high-memory block compiled and live: the block at index 2 ends at
  \<open>0xff90\<close>, every other one at \<open>0xffa0\<close>.  \<open>release_block\<close> stands for the translator's
  \<open>free_block\<close>.
\<close>

definition hot_session :: gb_vm where
  "hot_session =
     (session 0)\<lparr>highmem_blocks :=
       (\<lambda>i. \<lparr>exec_count = 1, end_address = (if i = 2 then 0xff90 else 0xffa0)\<rparr>)\<rparr>"

definition release_block :: "gb_block \<Rightarrow> gb_block" where
  "release_block b = b\<lparr>end_address := 0\<rparr>"

text \<open>The session of an MBC1 cartridge after the store \<open>(0x4000, 0x01)\<close> has latched the upper bits.\<close>

definition mbc1_latched :: gb_vm where
  "mbc1_latched = (session 0x01)\<lparr>memory := (session_memory 0x01)\<lparr>mbc_data := 0x20\<rparr>\<rparr>"

text \<open>A session with the keys \<open>0x05\<close> pressed.\<close>

definition pressed_session :: gb_vm where
  "pressed_session = (session 0)\<lparr>keys := \<lparr>state = 0x05\<rparr>\<rparr>"

text \<open>A session whose bytes at \<open>0x3000 + i\<close>, for \<open>i < 160\<close>, are \<open>i\<close>.\<close>

definition dma_session :: gb_vm where
  "dma_session =
     (session 0)\<lparr>memory := (session_memory 0)\<lparr>mem :=
       (\<lambda>x. if 0x3000 \<le> x \<and> x < 0x30a0 then Some (of_nat (x - 0x3000))
            else mem (session_memory 0) x)\<rparr>\<rparr>"

text \<open>The session of an MBC3 cartridge after the store \<open>(0x4000, 0x08)\<close> has exposed the clock.\<close>

definition rtc_session :: gb_vm where
  "rtc_session =
     (session 0x11)\<lparr>memory := (session_memory 0x11)\<lparr>mem := (mem (session_memory 0x11))(0xa000 \<mapsto> 0),
        rtc_access := True\<rparr>\<rparr>"

text \<open>The session of an MBC3 cartridge with RAM after RAM bank 1 has been selected.\<close>

definition bank1_session :: gb_vm where
  "bank1_session =
     (session 0x13)\<lparr>memory :=
        (case gb_memory_change_ram_bank (session_memory 0x13) 1 of
           Inr m \<Rightarrow> m
         | Inl f \<Rightarrow> session_memory 0x13)\<rparr>"

text \<open>
  The session with the clock exposed, after the store \<open>(0xa000, 0x55)\<close> into the window.
\<close>

definition rtc_written :: gb_vm where
  "rtc_written =
     rtc_session\<lparr>memory := (memory rtc_session)\<lparr>mem :=
        (mem (memory rtc_session))(0xa000 \<mapsto> 0x55)\<rparr>\<rparr>"

section \<open>Auxiliary facts\<close>

lemma session_init:
  "gb_memory_init header_type 16 (good_init c) {} blank_memory (Some ''rom.gb'') =
     Inr (True, session_memory c, {3})"
  by (simp add: gb_memory_init_def good_init_def init_fields_def map_anon_def map_file_def
      blank_rom_def session_memory_def blank_memory_def malloc_region_def cong: if_cong)

lemma session_mem_high:
  "0x8000 \<le> a \<Longrightarrow> a < 0x10000 \<Longrightarrow> mem (memory (session c)) a = Some 0"
  by (simp add: session_def session_memory_def map_anon_def)

text \<open>The loop in closed form: what it leaves at every index.\<close>

lemma invalidate_blocks_eq:
  "invalidate_blocks fb addr i bs =
     (\<lambda>j. if i \<le> j \<and> j < addr - 0xff80 \<and> exec_count (bs j) \<noteq> 0 \<and> end_address (bs j) > addr
          then (fb (bs j))\<lparr>exec_count := 0\<rparr> else bs j)"
proof (induction fb addr i bs rule: invalidate_blocks.induct)
  case (1 fb addr i bs)
  show ?case
  proof (cases "i < addr - 0xff80")
    case True
    let ?bs' = "if exec_count (bs i) \<noteq> 0 \<and> end_address (bs i) > addr
                then bs(i := (fb (bs i))\<lparr>exec_count := 0\<rparr>) else bs"
    have "invalidate_blocks fb addr i bs = invalidate_blocks fb addr (Suc i) ?bs'"
      using True by (subst invalidate_blocks.simps) simp
    also have "\<dots> = (\<lambda>j. if Suc i \<le> j \<and> j < addr - 0xff80 \<and> exec_count (?bs' j) \<noteq> 0
                           \<and> end_address (?bs' j) > addr
                         then (fb (?bs' j))\<lparr>exec_count := 0\<rparr> else ?bs' j)"
      using True by (rule "1.IH")
    also have "\<dots> = (\<lambda>j. if i \<le> j \<and> j < addr - 0xff80 \<and> exec_count (bs j) \<noteq> 0
                           \<and> end_address (bs j) > addr
                         then (fb (bs j))\<lparr>exec_count := 0\<rparr> else bs j)"
      using True by (auto simp: fun_eq_iff le_Suc_eq)
    finally show ?thesis .
  next
    case False
    then show ?thesis
      by (subst invalidate_blocks.simps) (auto simp: fun_eq_iff)
  qed
qed

text \<open>The dispatch below \<open>0x8000\<close>, one family at a time.\<close>

lemma write_low:
  "unat (addr AND 0xffff) = a \<Longrightarrow> a < 0x8000
   \<Longrightarrow> gb_memory_write os fb s addr v =
       (case mbc_write os (memory s) a (ucast (v AND 0xff)) of
          Inl f \<Rightarrow> Inl f
        | Inr m' \<Rightarrow> Inr (s\<lparr>memory := m'\<rparr>))"
  by (simp add: gb_memory_write_def Let_def)

lemma mbc_write_mbc1:
  "mbc m \<in> {MBC1, MBC1_RAM_BAT, MBC2, MBC2_BAT} \<Longrightarrow> mbc_write os m a v = mbc1_write os m a v"
  by (auto simp: mbc_write_def)

lemma mbc_write_mbc3:
  "mbc m \<in> {MBC3, MBC3_RAM_BAT, MBC3_TIMER_RAM_BAT}
   \<Longrightarrow> mbc_write os m a v = mbc3_write os m a v"
  by (auto simp: mbc_write_def)

lemma mbc_write_mbc5:
  "mbc m \<in> {MBC5, MBC5_RAM_BAT} \<Longrightarrow> mbc_write os m a v = mbc5_write os m a v"
  by (auto simp: mbc_write_def)

text \<open>What the bank operations do to the controller.\<close>

lemma change_rom_bank_ok:
  "munmap_ok os \<Longrightarrow> mmap_ok os \<Longrightarrow> 0 \<le> bank
   \<Longrightarrow> current_rom_bank (gb_memory_change_rom_bank os m bank) = bank"
  by (simp add: gb_memory_change_rom_bank_def)

lemma change_rom_bank_cases:
  "current_rom_bank (gb_memory_change_rom_bank os m bank) = bank
   \<or> current_rom_bank (gb_memory_change_rom_bank os m bank) = current_rom_bank m"
  by (simp add: gb_memory_change_rom_bank_def)

lemma change_rom_bank_mbc:
  "mbc (gb_memory_change_rom_bank os m bank) = mbc m"
  by (simp add: gb_memory_change_rom_bank_def)

lemma change_ram_bank_keeps:
  "gb_memory_change_ram_bank m bank = Inr m'
   \<Longrightarrow> mbc m' = mbc m \<and> current_rom_bank m' = current_rom_bank m"
  by (auto simp: gb_memory_change_ram_bank_def split: if_splits sum.splits)

lemma access_rtc_keeps:
  "gb_memory_access_rtc m e = Inr m'
   \<Longrightarrow> mbc m' = mbc m \<and> current_rom_bank m' = current_rom_bank m"
  by (auto simp: gb_memory_access_rtc_def split: sum.splits)

text \<open>
  The composed bank of the MBC1 family.  Only bits 5 and 6 of \<open>mbc_data\<close> are read, so an
  8-bit register would give the same bank.
\<close>

lemma mbc_data_width:
  fixes d :: int
  shows "(d AND 0xff) AND 0x60 = d AND 0x60"
  by (simp add: and.assoc)

lemma or_one_of_cleared:
  fixes b :: int
  assumes "b AND 0x1f = 0"
  shows "b OR 1 = b + 1"
proof -
  have "even (b AND 0x1f)" using assms by simp
  then have "even b" by (simp add: even_and_iff)
  then show ?thesis by (simp add: or_one_eq)
qed

lemma mbc1_bank_nonzero:
  fixes b :: int
  shows "(if b AND 0x1f = 0 then b OR 1 else b) \<noteq> 0"
proof (cases "b AND 0x1f = 0")
  case True
  have "odd (b OR 1)" by (simp add: even_or_iff)
  then have "b OR 1 \<noteq> 0" by auto
  then show ?thesis using True by simp
next
  case False
  then have "b \<noteq> 0" by auto
  then show ?thesis using False by simp
qed

lemma mbc1_bank_nonneg:
  fixes d :: int
  shows "0 \<le> uint (w :: u8) OR (if md \<noteq> 0 then 0 else d AND 0x60)"
  by simp

lemma mbc1_latch_write:
  "gb_memory_write (good_sys 0x01) release_block (session 0x01) 0x4000 0x01 = Inr mbc1_latched"
  by (simp add: write_low mbc_write_mbc1 mbc1_write_def session_def session_memory_def
      header_type_def mbc1_latched_def)

text \<open>The joypad byte, with the two select tests written as masks.\<close>

lemma get_joypad_state_eq:
  "get_joypad_state ks v =
     NOT ((if v AND 0xef = 0 then 0 else state ks AND 0x0f)
          OR (if v AND 0xdf = 0 then 0 else drop_bit 4 (state ks)))"
proof -
  have e: "(NOT 0x10 :: u8) = 0xef" "(NOT 0x20 :: u8) = 0xdf"
    by simp_all
  show ?thesis
    unfolding get_joypad_state_def Let_def e
    by (cases "v AND 0xef = 0"; cases "v AND 0xdf = 0")
       (simp_all only: simp_thms if_True if_False or.left_neutral or.right_neutral)
qed

text \<open>
  The branches of the dispatch.  Stores keep the controller kind, and outside MBC5 they
  keep the ROM bank away from 0.
\<close>

lemma rom_bank_step:
  assumes "sel \<noteq> 0"
  shows "mbc (gb_memory_change_rom_bank os m sel) = mbc m
     \<and> (current_rom_bank m \<noteq> 0 \<longrightarrow> current_rom_bank (gb_memory_change_rom_bank os m sel) \<noteq> 0)"
  using change_rom_bank_cases [of os m sel] assms
  by (auto simp only: change_rom_bank_mbc)

lemma mbc1_write_cases:
  assumes "mbc1_write os m a v = Inr m'"
  obtains (mode) "m' = m\<lparr>mbc_mode := uint (v AND 0x01)\<rparr>"
    | (ram) "gb_memory_change_ram_bank m (uint v) = Inr m'"
    | (latch) "m' = m\<lparr>mbc_data := push_bit 5 (uint v)\<rparr>"
    | (rom) bank where "bank \<noteq> 0" and "m' = gb_memory_change_rom_bank os m bank"
    | (none) "m' = m"
proof -
  consider (r1) "0x6000 \<le> a" | (r2) "0x4000 \<le> a \<and> a < 0x6000"
    | (r3) "0x2000 \<le> a \<and> a < 0x4000" | (r4) "a < 0x2000"
    by linarith
  then show thesis
  proof cases
    case r1
    then have "m' = m\<lparr>mbc_mode := uint (v AND 0x01)\<rparr>"
      using assms by (simp add: mbc1_write_def)
    then show ?thesis by (rule mode)
  next
    case r2
    show ?thesis
    proof (cases "mbc_mode m \<noteq> 0")
      case True
      then have "gb_memory_change_ram_bank m (uint v) = Inr m'"
        using assms r2 by (simp add: mbc1_write_def)
      then show ?thesis by (rule ram)
    next
      case False
      then have "m' = m\<lparr>mbc_data := push_bit 5 (uint v)\<rparr>"
        using assms r2 by (simp add: mbc1_write_def)
      then show ?thesis by (rule latch)
    qed
  next
    case r3
    define b where "b = uint (v AND 0x1f) OR (if mbc_mode m \<noteq> 0 then 0 else mbc_data m AND 0x60)"
    define sel where "sel = (if b AND 0x1f = 0 then b OR 1 else b)"
    have "mbc1_write os m a v = Inr (gb_memory_change_rom_bank os m sel)"
      using r3 unfolding sel_def b_def by (simp add: mbc1_write_def Let_def)
    then have "m' = gb_memory_change_rom_bank os m sel"
      using assms by simp
    moreover have "sel \<noteq> 0" unfolding sel_def by (rule mbc1_bank_nonzero)
    ultimately show ?thesis using rom by blast
  next
    case r4
    then have "m' = m" using assms by (simp add: mbc1_write_def)
    then show ?thesis by (rule none)
  qed
qed

lemma mbc3_write_cases:
  assumes "mbc3_write os m a v = Inr m'"
  obtains (ram) "gb_memory_change_ram_bank m (uint v) = Inr m'"
    | (rtc) "gb_memory_access_rtc m (uint v) = Inr m'"
    | (rom) bank where "bank \<noteq> 0" and "m' = gb_memory_change_rom_bank os m bank"
    | (none) "m' = m"
proof -
  consider (r1) "0x6000 \<le> a" | (r2) "0x4000 \<le> a \<and> a < 0x6000"
    | (r3) "0x2000 \<le> a \<and> a < 0x4000" | (r4) "a < 0x2000"
    by linarith
  then show thesis
  proof cases
    case r1
    then have "m' = m"
      using assms by (simp add: mbc3_write_def gb_memory_update_rtc_time_def)
    then show ?thesis by (rule none)
  next
    case r2
    show ?thesis
    proof (cases "v \<le> 4")
      case True
      then have "gb_memory_change_ram_bank m (uint v) = Inr m'"
        using assms r2 by (simp add: mbc3_write_def)
      then show ?thesis by (rule ram)
    next
      case False
      then have "gb_memory_access_rtc m (uint v) = Inr m'"
        using assms r2 by (simp add: mbc3_write_def)
      then show ?thesis by (rule rtc)
    qed
  next
    case r3
    define sel where "sel = (if uint (v AND 0x7f) = 0 then 1 else uint (v AND 0x7f))"
    have "mbc3_write os m a v = Inr (gb_memory_change_rom_bank os m sel)"
      using r3 unfolding sel_def by (simp add: mbc3_write_def Let_def)
    then have "m' = gb_memory_change_rom_bank os m sel"
      using assms by simp
    moreover have "sel \<noteq> 0" unfolding sel_def by simp
    ultimately show ?thesis using rom by blast
  next
    case r4
    then have "m' = m" using assms by (simp add: mbc3_write_def)
    then show ?thesis by (rule none)
  qed
qed

lemma mbc5_write_cases:
  assumes "mbc5_write os m a v = Inr m'"
  obtains (ram) "gb_memory_change_ram_bank m (uint v) = Inr m'"
    | (rom) "m' = gb_memory_change_rom_bank os m (uint v)"
    | (none) "m' = m"
proof -
  consider (r1) "0x4000 \<le> a" | (r2) "0x2000 \<le> a \<and> a < 0x4000" | (r3) "a < 0x2000"
    by linarith
  then show thesis
  proof cases
    case r1
    then have "gb_memory_change_ram_bank m (uint v) = Inr m'"
      using assms by (simp add: mbc5_write_def)
    then show ?thesis by (rule ram)
  next
    case r2
    then have "m' = gb_memory_change_rom_bank os m (uint v)"
      using assms by (simp add: mbc5_write_def)
    then show ?thesis by (rule rom)
  next
    case r3
    then have "m' = m" using assms by (simp add: mbc5_write_def)
    then show ?thesis by (rule none)
  qed
qed

lemma mbc_write_cases:
  assumes "mbc_write os m a v = Inr m'"
  obtains (one) "mbc m \<in> {MBC1, MBC1_RAM_BAT, MBC2, MBC2_BAT}" and "mbc1_write os m a v = Inr m'"
    | (three) "mbc m \<in> {MBC3, MBC3_RAM_BAT, MBC3_TIMER_RAM_BAT}"
        and "mbc3_write os m a v = Inr m'"
    | (five) "mbc m \<in> {MBC5, MBC5_RAM_BAT}" and "mbc5_write os m a v = Inr m'"
    | (other) "m' = m"
proof -
  consider (k1) "mbc m \<in> {MBC1, MBC1_RAM_BAT, MBC2, MBC2_BAT}"
    | (k3) "mbc m \<in> {MBC3, MBC3_RAM_BAT, MBC3_TIMER_RAM_BAT}"
    | (k5) "mbc m \<in> {MBC5, MBC5_RAM_BAT}"
    | (k0) "mbc m = MBC_NONE \<or> (\<exists>c. mbc m = MBC_UNKNOWN c)"
    by (cases "mbc m") simp_all
  then show thesis
  proof cases
    case k1
    then show ?thesis using assms one by (simp only: mbc_write_mbc1)
  next
    case k3
    then show ?thesis using assms three by (simp only: mbc_write_mbc3)
  next
    case k5
    then show ?thesis using assms five by (simp only: mbc_write_mbc5)
  next
    case k0
    then have "m' = m" using assms by (auto simp: mbc_write_def)
    then show ?thesis by (rule other)
  qed
qed

lemma mbc_write_keeps:
  assumes "mbc_write os m a v = Inr m'"
  shows "mbc m' = mbc m
     \<and> (mbc m \<notin> {MBC5, MBC5_RAM_BAT} \<longrightarrow> current_rom_bank m \<noteq> 0 \<longrightarrow> current_rom_bank m' \<noteq> 0)"
  using assms
proof (cases rule: mbc_write_cases)
  case one
  from one(2) have "mbc m' = mbc m \<and> (current_rom_bank m \<noteq> 0 \<longrightarrow> current_rom_bank m' \<noteq> 0)"
    using change_ram_bank_keeps rom_bank_step by (cases rule: mbc1_write_cases) auto
  then show ?thesis by simp
next
  case three
  from three(2) have "mbc m' = mbc m \<and> (current_rom_bank m \<noteq> 0 \<longrightarrow> current_rom_bank m' \<noteq> 0)"
    using change_ram_bank_keeps access_rtc_keeps rom_bank_step
    by (cases rule: mbc3_write_cases) auto
  then show ?thesis by simp
next
  case five
  from five(2) have "mbc m' = mbc m"
    using change_ram_bank_keeps change_rom_bank_mbc by (cases rule: mbc5_write_cases) auto
  then show ?thesis using five(1) by simp
next
  case other
  then show ?thesis by simp
qed

lemma set_mem_Inr:
  "set_mem s r = Inr s' \<Longrightarrow> \<exists>w. r = Inr w \<and> s' = s\<lparr>memory := (memory s)\<lparr>mem := w\<rparr>\<rparr>"
  by (cases r) (auto simp: set_mem_def)

lemma write_high_frame:
  assumes "0x8000 \<le> unat (addr AND 0xffff)" and "gb_memory_write os fb s addr v = Inr s'"
  shows "\<exists>w. memory s' = (memory s)\<lparr>mem := w\<rparr>"
proof -
  let ?a = "unat (addr AND 0xffff)"
  have na: "\<not> ?a < 0x8000" using assms(1) by simp
  consider (serial) "?a = 0xff01" | (hi) "?a \<noteq> 0xff01 \<and> 0xff80 \<le> ?a" | (other) "?a \<noteq> 0xff01 \<and> \<not> 0xff80 \<le> ?a"
    by blast
  then show ?thesis
  proof cases
    case serial
    then have "s' = s" using assms(2) by (simp add: gb_memory_write_def Let_def)
    then show ?thesis by (intro exI [of _ "mem (memory s)"]) simp
  next
    case hi
    then obtain r where
      "set_mem (s\<lparr>highmem_blocks := invalidate_blocks fb ?a 0 (highmem_blocks s)\<rparr>) r = Inr s'"
      using assms(2) na by (simp add: gb_memory_write_def Let_def)
    from set_mem_Inr [OF this] show ?thesis by auto
  next
    case other
    then obtain r where "set_mem s r = Inr s'"
      using assms(2) na by (simp add: gb_memory_write_def Let_def split: if_splits)
    from set_mem_Inr [OF this] show ?thesis by auto
  qed
qed

lemma write_keeps:
  assumes "gb_memory_write os fb s addr v = Inr s'"
  shows "mbc (memory s') = mbc (memory s)
     \<and> (mbc (memory s) \<notin> {MBC5, MBC5_RAM_BAT} \<longrightarrow> current_rom_bank (memory s) \<noteq> 0
          \<longrightarrow> current_rom_bank (memory s') \<noteq> 0)"
proof (cases "unat (addr AND 0xffff) < 0x8000")
  case True
  from assms obtain m' where
    m': "mbc_write os (memory s) (unat (addr AND 0xffff)) (ucast (v AND 0xff)) = Inr m'"
    and s': "s' = s\<lparr>memory := m'\<rparr>"
    by (auto simp: write_low [OF refl True] split: sum.splits)
  show ?thesis using mbc_write_keeps [OF m'] by (simp add: s')
next
  case False
  then have "0x8000 \<le> unat (addr AND 0xffff)" by simp
  from write_high_frame [OF this assms] show ?thesis by auto
qed

lemma init_fields_rom_bank:
  "init_fields ct n ios m1 fname = Inr m \<Longrightarrow> current_rom_bank m = 1"
  by (auto simp: init_fields_def split: option.splits)

lemma init_rom_bank:
  assumes "gb_memory_init ct n ios fds m0 fname = Inr (True, m, fds')"
  shows "current_rom_bank m = 1"
proof (cases fname)
  case None
  then obtain m1 where "init_fields ct n ios m1 fname = Inr m"
    using assms by (simp add: gb_memory_init_def split: if_splits sum.splits)
  then show ?thesis by (rule init_fields_rom_bank)
next
  case (Some name)
  then obtain m1 where "init_fields ct n ios m1 fname = Inr m"
    using assms by (simp add: gb_memory_init_def split: if_splits sum.splits)
  then show ?thesis by (rule init_fields_rom_bank)
qed

text \<open>Example runs.\<close>

lemma rtc_expose_write:
  "gb_memory_write (good_sys 0x11) release_block (session 0x11) 0x4000 0x08 = Inr rtc_session"
  by (simp add: write_low mbc_write_mbc3 mbc3_write_def session_def session_memory_def
      header_type_def rtc_session_def gb_memory_access_rtc_def poke_def map_anon_def)

lemma session_reachable: "reachable header_type 16 (session c)"
  unfolding session_def by (rule reach_init) (rule session_init)

lemma mbc5_select_zero:
  "gb_memory_write (good_sys 0x19) release_block (session 0x19) 0x2100 0x00 =
     Inr ((session 0x19)\<lparr>memory :=
            gb_memory_change_rom_bank (good_sys 0x19) (memory (session 0x19)) 0\<rparr>)"
  by (simp add: write_low mbc_write_mbc5 mbc5_write_def session_def session_memory_def
      header_type_def)

text \<open>Copies between the RAM window and the bank store.\<close>

lemma accessible_copy:
  assumes "accessible dst a k" and "accessible src s n"
  shows "accessible (copy_bytes dst d src s n) a k"
  unfolding accessible_def copy_bytes_def
proof (intro ballI)
  fix i assume i: "i \<in> {0..<k}"
  show "(if d \<le> a + i \<and> a + i < d + n then src (s + (a + i - d)) else dst (a + i)) \<noteq> None"
  proof (cases "d \<le> a + i \<and> a + i < d + n")
    case True
    then have "a + i - d \<in> {0..<n}" by auto
    then have "src (s + (a + i - d)) \<noteq> None"
      using assms(2) unfolding accessible_def by blast
    then show ?thesis using True by simp
  next
    case False
    then show ?thesis using assms(1) i unfolding accessible_def by auto
  qed
qed

lemma copy_bytes_in: "j < n \<Longrightarrow> copy_bytes dst d src s n (d + j) = src (s + j)"
  by (simp add: copy_bytes_def)

lemma copy_bytes_out:
  "\<not> (d \<le> x \<and> x < d + n) \<Longrightarrow> copy_bytes dst d src s n x = dst x"
  by (auto simp: copy_bytes_def)

lemma bank_slots_disjoint:
  assumes "a \<noteq> b" and "0 \<le> a" and "0 \<le> b" and "i < 0x2000"
  shows "\<not> (bank_offset b \<le> bank_offset a + i \<and> bank_offset a + i < bank_offset b + 0x2000)"
  using assms unfolding bank_offset_def by arith

lemma change_ram_bank_switch:
  assumes "current_ram_bank m \<noteq> bank" and "\<not> rtc_access m"
    and "0 \<le> current_ram_bank m" and "0 \<le> bank"
    and "accessible (mem m) 0xa000 0x2000"
    and "accessible (ram_banks m) (bank_offset (current_ram_bank m)) 0x2000"
    and "accessible (ram_banks m) (bank_offset bank) 0x2000"
    and "rb = copy_bytes (ram_banks m) (bank_offset (current_ram_bank m)) (mem m) 0xa000 0x2000"
  shows "gb_memory_change_ram_bank m bank =
     Inr (m\<lparr>mem := copy_bytes (mem m) 0xa000 rb (bank_offset bank) 0x2000,
            ram_banks := rb, rtc_access := False, current_ram_bank := bank\<rparr>)"
proof -
  have "accessible rb (bank_offset bank) 0x2000"
    unfolding assms(8) using assms(7,5) by (rule accessible_copy)
  then show ?thesis
    using assms(1-6) unfolding assms(8)
    by (simp add: gb_memory_change_ram_bank_def memcpy_chk_def)
qed

lemma ram_round_trip_core:
  assumes "current_ram_bank m = a" and "\<not> rtc_access m" and "a \<noteq> b"
    and "0 \<le> a" and "0 \<le> b"
    and "accessible (mem m) 0xa000 0x2000"
    and "accessible (ram_banks m) (bank_offset a) 0x2000"
    and "accessible (ram_banks m) (bank_offset b) 0x2000"
  shows "\<exists>m3 m4. gb_memory_change_ram_bank m b = Inr m3
     \<and> gb_memory_change_ram_bank m3 a = Inr m4
     \<and> (\<forall>x\<in>{0xa000..<0xc000}. mem m4 x = mem m x)
     \<and> current_ram_bank m4 = a \<and> \<not> rtc_access m4"
proof -
  define rb where "rb = copy_bytes (ram_banks m) (bank_offset a) (mem m) 0xa000 0x2000"
  define w where "w = copy_bytes (mem m) 0xa000 rb (bank_offset b) 0x2000"
  define m3 where "m3 = m\<lparr>mem := w, ram_banks := rb, rtc_access := False, current_ram_bank := b\<rparr>"
  define rb' where "rb' = copy_bytes rb (bank_offset b) w 0xa000 0x2000"
  define w' where "w' = copy_bytes w 0xa000 rb' (bank_offset a) 0x2000"
  define m4 where
    "m4 = m3\<lparr>mem := w', ram_banks := rb', rtc_access := False, current_ram_bank := a\<rparr>"
  have rb_a: "accessible rb (bank_offset a) 0x2000"
    and rb_b: "accessible rb (bank_offset b) 0x2000"
    unfolding rb_def using assms(6,7,8) by (simp_all add: accessible_copy)
  have w_acc: "accessible w 0xa000 0x2000"
    unfolding w_def using assms(6) rb_b by (rule accessible_copy)
  have s1: "gb_memory_change_ram_bank m b = Inr m3"
    unfolding m3_def w_def
    using assms rb_def by (intro change_ram_bank_switch) simp_all
  have s2: "gb_memory_change_ram_bank m3 a = Inr m4"
  proof -
    have "gb_memory_change_ram_bank m3 a =
      Inr (m3\<lparr>mem := copy_bytes (mem m3) 0xa000 rb' (bank_offset a) 0x2000,
            ram_banks := rb', rtc_access := False, current_ram_bank := a\<rparr>)"
      using assms(3,4,5) w_acc rb_a rb_b
      by (intro change_ram_bank_switch) (simp_all add: m3_def rb'_def)
    then show ?thesis by (simp add: m4_def w'_def m3_def)
  qed
  have restored: "mem m4 x = mem m x" if "x \<in> {0xa000..<0xc000}" for x
  proof -
    from that obtain j where x: "x = 0xa000 + j" and j: "j < 0x2000"
      by (auto intro: that [of "x - 0xa000"] dest: le_Suc_ex)
    have "mem m4 x = rb' (bank_offset a + j)"
      using j by (simp add: m4_def w'_def x copy_bytes_in)
    also have "\<dots> = rb (bank_offset a + j)"
      unfolding rb'_def using bank_slots_disjoint [OF assms(3,4,5) j] by (rule copy_bytes_out)
    also have "\<dots> = mem m (0xa000 + j)"
      unfolding rb_def using j by (rule copy_bytes_in)
    finally show ?thesis by (simp add: x)
  qed
  have "current_ram_bank m4 = a \<and> \<not> rtc_access m4" by (simp add: m4_def)
  then show ?thesis using s1 s2 restored by blast
qed

lemma change_ram_bank_current:
  "gb_memory_change_ram_bank m n = Inr m' \<Longrightarrow> current_ram_bank m' = n"
  by (auto simp: gb_memory_change_ram_bank_def split: if_splits sum.splits)

lemma change_ram_bank_rtc:
  assumes "gb_memory_change_ram_bank m bank = Inr m'"
    and "current_ram_bank m \<noteq> bank" and "rtc_access m"
  shows "0 \<le> bank
     \<and> m' = m\<lparr>mem := copy_bytes (mem m) 0xa000 (ram_banks m) (bank_offset bank) 0x2000,
              ram_banks := ram_banks m, rtc_access := False, current_ram_bank := bank\<rparr>"
  using assms
  by (simp add: gb_memory_change_ram_bank_def memcpy_chk_def split: if_splits)

lemma change_ram_bank_plain:
  assumes "gb_memory_change_ram_bank m bank = Inr m'"
    and "current_ram_bank m \<noteq> bank" and "\<not> rtc_access m"
    and "rb = copy_bytes (ram_banks m) (bank_offset (current_ram_bank m)) (mem m) 0xa000 0x2000"
  shows "0 \<le> bank \<and> 0 \<le> current_ram_bank m
     \<and> m' = m\<lparr>mem := copy_bytes (mem m) 0xa000 rb (bank_offset bank) 0x2000,
              ram_banks := rb, rtc_access := False, current_ram_bank := bank\<rparr>"
  using assms(1-3) unfolding assms(4)
  by (simp add: gb_memory_change_ram_bank_def memcpy_chk_def split: if_splits)

lemma rtc_window_not_saved:
  assumes "rtc_access m" and "current_ram_bank m = a" and "a \<noteq> b"
    and "gb_memory_change_ram_bank m b = Inr m3"
    and "gb_memory_change_ram_bank m3 a = Inr m4"
    and "j < 0x2000"
  shows "mem m4 (0xa000 + j) = ram_banks m (bank_offset a + j)"
proof -
  define w where "w = copy_bytes (mem m) 0xa000 (ram_banks m) (bank_offset b) 0x2000"
  have b: "0 \<le> b"
    and m3: "m3 = m\<lparr>mem := w, ram_banks := ram_banks m, rtc_access := False,
                     current_ram_bank := b\<rparr>"
    using change_ram_bank_rtc [OF assms(4) _ assms(1)] assms(2,3) by (simp_all add: w_def)
  define rb' where "rb' = copy_bytes (ram_banks m) (bank_offset b) w 0xa000 0x2000"
  have "0 \<le> a \<and> m4 = m3\<lparr>mem := copy_bytes (mem m3) 0xa000 rb' (bank_offset a) 0x2000,
              ram_banks := rb', rtc_access := False, current_ram_bank := a\<rparr>"
    using change_ram_bank_plain [OF assms(5), of rb'] assms(3)
    by (simp add: m3 rb'_def)
  then have a: "0 \<le> a" and m4: "mem m4 = copy_bytes w 0xa000 rb' (bank_offset a) 0x2000"
    by (simp_all add: m3)
  have "mem m4 (0xa000 + j) = rb' (bank_offset a + j)"
    unfolding m4 using assms(6) by (rule copy_bytes_in)
  also have "\<dots> = ram_banks m (bank_offset a + j)"
    unfolding rb'_def using bank_slots_disjoint [OF assms(3) a b assms(6)] by (rule copy_bytes_out)
  finally show ?thesis .
qed

lemma window_write:
  assumes "0xa000 \<le> unat (addr AND 0xffff)" and "unat (addr AND 0xffff) < 0xc000"
    and "gb_memory_write os fb s addr v = Inr s'"
  shows "s' = s\<lparr>memory := (memory s)\<lparr>mem :=
            (mem (memory s))(unat (addr AND 0xffff) \<mapsto> ucast (v AND 0xff))\<rparr>\<rparr>"
  using assms
  by (simp add: gb_memory_write_def Let_def set_mem_def poke_def split: if_splits)

lemma run_window_writes:
  assumes "\<forall>(os, addr, v)\<in>set ws. 0xa000 \<le> unat (addr AND 0xffff) \<and> unat (addr AND 0xffff) < 0xc000"
    and "run_writes fb s ws = Inr s'"
  shows "current_ram_bank (memory s') = current_ram_bank (memory s)
     \<and> rtc_access (memory s') = rtc_access (memory s)
     \<and> ram_banks (memory s') = ram_banks (memory s)
     \<and> (accessible (mem (memory s)) 0xa000 0x2000 \<longrightarrow> accessible (mem (memory s')) 0xa000 0x2000)"
  using assms
proof (induction ws arbitrary: s)
  case Nil
  then show ?case by simp
next
  case (Cons w ws)
  obtain os addr v where w: "w = (os, addr, v)" by (cases w)
  from Cons.prems(2) obtain s1 where
    s1: "gb_memory_write os fb s addr v = Inr s1" and rest: "run_writes fb s1 ws = Inr s'"
    by (auto simp: w split: sum.splits)
  have win: "0xa000 \<le> unat (addr AND 0xffff)" "unat (addr AND 0xffff) < 0xc000"
    using Cons.prems(1) by (simp_all add: w)
  note step = window_write [OF win s1]
  have "\<forall>(os, addr, v)\<in>set ws. 0xa000 \<le> unat (addr AND 0xffff) \<and> unat (addr AND 0xffff) < 0xc000"
    using Cons.prems(1) by simp
  from Cons.IH [OF this rest] show ?case
    by (auto simp: step accessible_def)
qed

lemma run_writes_last:
  assumes "run_writes fb s (ws @ [(os, addr, v)]) = Inr s'"
    and "0xa000 \<le> unat (addr AND 0xffff)" and "unat (addr AND 0xffff) < 0xc000"
  shows "mem (memory s') (unat (addr AND 0xffff)) = Some (ucast (v AND 0xff))"
  using assms(1)
proof (induction ws arbitrary: s)
  case Nil
  then have "gb_memory_write os fb s addr v = Inr s'"
    by (simp split: sum.splits)
  from window_write [OF assms(2,3) this] show ?case by simp
next
  case (Cons w ws)
  obtain os1 addr1 v1 where w: "w = (os1, addr1, v1)" by (cases w)
  from Cons.prems obtain s1 where "run_writes fb s1 (ws @ [(os, addr, v)]) = Inr s'"
    by (auto simp: w split: sum.splits)
  then show ?case by (rule Cons.IH)
qed

lemma session_window: "accessible (mem (session_memory c)) 0xa000 0x2000"
  by (simp add: accessible_def session_memory_def map_anon_def)

lemma session_slot:
  "0 \<le> k \<Longrightarrow> k < 16 \<Longrightarrow> accessible (ram_banks (session_memory c)) (bank_offset k) 0x2000"
  by (auto simp: accessible_def session_memory_def bank_offset_def)

lemma bank1_select:
  "gb_memory_change_ram_bank (session_memory 0x13) 1 = Inr (memory bank1_session)
   \<and> \<not> rtc_access (memory bank1_session)
   \<and> accessible (mem (memory bank1_session)) 0xa000 0x2000
   \<and> accessible (ram_banks (memory bank1_session)) (bank_offset 1) 0x2000
   \<and> accessible (ram_banks (memory bank1_session)) (bank_offset 2) 0x2000"
proof -
  define rb where "rb = copy_bytes (ram_banks (session_memory 0x13))
      (bank_offset (current_ram_bank (session_memory 0x13))) (mem (session_memory 0x13))
      0xa000 0x2000"
  define m1 where "m1 = (session_memory 0x13)\<lparr>mem :=
      copy_bytes (mem (session_memory 0x13)) 0xa000 rb (bank_offset 1) 0x2000,
      ram_banks := rb, rtc_access := False, current_ram_bank := 1\<rparr>"
  have c: "current_ram_bank (session_memory 0x13) = 0" "\<not> rtc_access (session_memory 0x13)"
    by (simp_all add: session_memory_def)
  have sw: "gb_memory_change_ram_bank (session_memory 0x13) 1 = Inr m1"
    unfolding m1_def using c rb_def
    by (intro change_ram_bank_switch) (simp_all add: session_window session_slot)
  then have m1: "memory bank1_session = m1" by (simp add: bank1_session_def)
  have rb: "accessible rb (bank_offset k) 0x2000" if "0 \<le> k" "k < 16" for k
    unfolding rb_def using that by (intro accessible_copy session_slot session_window)
  have "accessible (mem m1) 0xa000 0x2000"
    using rb [of 1] by (simp add: m1_def accessible_copy session_window)
  moreover have "accessible (ram_banks m1) (bank_offset 1) 0x2000"
    "accessible (ram_banks m1) (bank_offset 2) 0x2000"
    using rb [of 1] rb [of 2] by (simp_all add: m1_def)
  moreover have "\<not> rtc_access m1" by (simp add: m1_def)
  ultimately show ?thesis using sw m1 by simp
qed

lemma change_ram_bank_switch_rtc:
  assumes "current_ram_bank m \<noteq> bank" and "rtc_access m" and "0 \<le> bank"
    and "accessible (mem m) 0xa000 0x2000"
    and "accessible (ram_banks m) (bank_offset bank) 0x2000"
  shows "gb_memory_change_ram_bank m bank =
     Inr (m\<lparr>mem := copy_bytes (mem m) 0xa000 (ram_banks m) (bank_offset bank) 0x2000,
            ram_banks := ram_banks m, rtc_access := False, current_ram_bank := bank\<rparr>)"
  using assms by (simp add: gb_memory_change_ram_bank_def memcpy_chk_def)

lemma rtc_written_write:
  "gb_memory_write (good_sys 0x11) release_block rtc_session 0xa000 0x55 = Inr rtc_written"
  by (simp add: gb_memory_write_def Let_def set_mem_def poke_def rtc_written_def rtc_session_def)

lemma rtc_written_trip:
  "\<exists>m3 m4. gb_memory_change_ram_bank (memory rtc_written) 1 = Inr m3
     \<and> gb_memory_change_ram_bank m3 0 = Inr m4"
proof -
  have f: "current_ram_bank (memory rtc_written) = 0" "rtc_access (memory rtc_written)"
    "ram_banks (memory rtc_written) = ram_banks (session_memory 0x11)"
    by (simp_all add: rtc_written_def rtc_session_def session_memory_def)
  have w: "accessible (mem (memory rtc_written)) 0xa000 0x2000"
    using session_window [of "0x11"]
    by (simp add: rtc_written_def rtc_session_def accessible_def)
  define m3 where "m3 = (memory rtc_written)\<lparr>mem :=
      copy_bytes (mem (memory rtc_written)) 0xa000 (ram_banks (memory rtc_written))
        (bank_offset 1) 0x2000,
      ram_banks := ram_banks (memory rtc_written), rtc_access := False, current_ram_bank := 1\<rparr>"
  have s3: "gb_memory_change_ram_bank (memory rtc_written) 1 = Inr m3"
    unfolding m3_def using f w
    by (intro change_ram_bank_switch_rtc) (simp_all add: session_slot)
  have w3: "accessible (mem m3) 0xa000 0x2000"
    using w by (simp add: m3_def f accessible_copy session_slot)
  define rb' where "rb' = copy_bytes (ram_banks m3) (bank_offset (current_ram_bank m3))
      (mem m3) 0xa000 0x2000"
  have "gb_memory_change_ram_bank m3 0 =
      Inr (m3\<lparr>mem := copy_bytes (mem m3) 0xa000 rb' (bank_offset 0) 0x2000,
            ram_banks := rb', rtc_access := False, current_ram_bank := 0\<rparr>)"
    using w3 rb'_def by (intro change_ram_bank_switch) (simp_all add: m3_def f session_slot)
  then show ?thesis using s3 by blast
qed

text \<open>
  The read/write half \<open>[0x8000, 0x10000)\<close> of the view is mapped in every state of a
  session, so a store there cannot fault.
\<close>

lemma poke_keeps_accessible:
  "poke r x v = Inr w \<Longrightarrow> accessible r a n \<Longrightarrow> accessible w a n"
  by (auto simp: poke_def accessible_def split: if_splits)

lemma memcpy_keeps_accessible:
  "memcpy_chk dst d src s n = Inr w \<Longrightarrow> accessible dst a k \<Longrightarrow> accessible w a k"
  by (auto simp: memcpy_chk_def accessible_copy split: if_splits)

lemma change_rom_bank_keeps_rw:
  assumes "accessible (mem m) 0x8000 0x8000"
  shows "accessible (mem (gb_memory_change_rom_bank os m bank)) 0x8000 0x8000"
  using assms
  by (auto simp: gb_memory_change_rom_bank_def accessible_def unmap_def map_file_def)

lemma change_ram_bank_keeps_rw:
  assumes "gb_memory_change_ram_bank m bank = Inr m'" and "accessible (mem m) 0x8000 0x8000"
  shows "accessible (mem m') 0x8000 0x8000"
proof (cases "current_ram_bank m = bank")
  case True
  then show ?thesis using assms by (simp add: gb_memory_change_ram_bank_def)
next
  case False
  then obtain rb w where "memcpy_chk (mem m) 0xa000 rb (bank_offset bank) 0x2000 = Inr w"
    and "mem m' = w"
    using assms(1)
    by (auto simp: gb_memory_change_ram_bank_def split: if_splits sum.splits)
  then show ?thesis using memcpy_keeps_accessible assms(2) by blast
qed

lemma access_rtc_keeps_rw:
  assumes "gb_memory_access_rtc m e = Inr m'" and "accessible (mem m) 0x8000 0x8000"
  shows "accessible (mem m') 0x8000 0x8000"
  using assms
  by (auto simp: gb_memory_access_rtc_def split: sum.splits dest: poke_keeps_accessible)

lemma mbc_write_keeps_rw:
  assumes "mbc_write os m a v = Inr m'" and "accessible (mem m) 0x8000 0x8000"
  shows "accessible (mem m') 0x8000 0x8000"
  using assms(1)
proof (cases rule: mbc_write_cases)
  case one
  from one(2) show ?thesis
    using assms(2) change_ram_bank_keeps_rw change_rom_bank_keeps_rw
    by (cases rule: mbc1_write_cases) auto
next
  case three
  from three(2) show ?thesis
    using assms(2) change_ram_bank_keeps_rw change_rom_bank_keeps_rw access_rtc_keeps_rw
    by (cases rule: mbc3_write_cases) auto
next
  case five
  from five(2) show ?thesis
    using assms(2) change_ram_bank_keeps_rw change_rom_bank_keeps_rw
    by (cases rule: mbc5_write_cases) auto
next
  case other
  then show ?thesis using assms(2) by simp
qed

lemma write_keeps_rw:
  assumes "gb_memory_write os fb s addr v = Inr s'"
    and "accessible (mem (memory s)) 0x8000 0x8000"
  shows "accessible (mem (memory s')) 0x8000 0x8000"
proof -
  let ?a = "unat (addr AND 0xffff)"
  let ?v = "ucast (v AND 0xff) :: u8"
  consider (low) "?a < 0x8000" | (serial) "?a = 0xff01" | (dma) "?a = 0xff46"
    | (timer) "?a = 0xff05" | (joypad) "?a = 0xff00"
    | (plain) "0x8000 \<le> ?a" "?a \<noteq> 0xff01" "?a \<noteq> 0xff46" "?a \<noteq> 0xff05" "?a \<noteq> 0xff00"
    by linarith
  then show ?thesis
  proof cases
    case low
    from assms(1) obtain m' where
      m': "mbc_write os (memory s) ?a ?v = Inr m'" and s': "s' = s\<lparr>memory := m'\<rparr>"
      by (auto simp: write_low [OF refl low] split: sum.splits)
    from mbc_write_keeps_rw [OF m' assms(2)] show ?thesis by (simp add: s')
  next
    case serial
    then have "s' = s" using assms(1) by (simp add: gb_memory_write_def Let_def)
    then show ?thesis using assms(2) by simp
  next
    case dma
    then have "set_mem s (case poke (mem (memory s)) ?a ?v of Inl f \<Rightarrow> Inl f
        | Inr w \<Rightarrow> memcpy_chk w 0xfe00 w (unat ?v * 0x100) 0xa0) = Inr s'"
      using assms(1) by (simp add: gb_memory_write_def Let_def)
    from set_mem_Inr [OF this] obtain w w' where
      "poke (mem (memory s)) ?a ?v = Inr w"
      and "memcpy_chk w 0xfe00 w (unat ?v * 0x100) 0xa0 = Inr w'"
      and "mem (memory s') = w'"
      by (auto split: sum.splits)
    then show ?thesis
      using assms(2) poke_keeps_accessible memcpy_keeps_accessible by metis
  next
    case timer
    then have "set_mem s (poke (mem (memory s)) ?a 0) = Inr s'"
      using assms(1) by (simp add: gb_memory_write_def Let_def)
    from set_mem_Inr [OF this] show ?thesis
      using assms(2) poke_keeps_accessible by auto
  next
    case joypad
    then have "set_mem s (poke (mem (memory s)) ?a (get_joypad_state (keys s) ?v)) = Inr s'"
      using assms(1) by (simp add: gb_memory_write_def Let_def)
    from set_mem_Inr [OF this] show ?thesis
      using assms(2) poke_keeps_accessible by auto
  next
    case plain
    let ?hot = "s\<lparr>highmem_blocks := invalidate_blocks fb ?a 0 (highmem_blocks s)\<rparr>"
    have "set_mem (if 0xff80 \<le> ?a then ?hot else s) (poke (mem (memory s)) ?a ?v) = Inr s'"
      using assms(1) plain by (simp add: gb_memory_write_def Let_def split: if_splits)
    from set_mem_Inr [OF this] show ?thesis
      using assms(2) poke_keeps_accessible by (auto split: if_splits)
  qed
qed

lemma init_rw:
  assumes "gb_memory_init ct n ios fds m0 fname = Inr (True, m, fds')"
  shows "accessible (mem m) 0x8000 0x8000"
proof -
  have keep: "mem m' = mem m1" if "init_fields ct n ios m1 fname = Inr m'" for m1 m'
    using that by (auto simp: init_fields_def split: option.splits)
  show ?thesis
  proof (cases fname)
    case None
    then have "init_fields ct n ios (m0\<lparr>mem := map_anon Map.empty 0 0x10000, fd := - 1\<rparr>) fname
        = Inr m"
      using assms by (simp add: gb_memory_init_def split: if_splits sum.splits)
    from keep [OF this] show ?thesis by (simp add: accessible_def map_anon_def)
  next
    case (Some name)
    then have "init_fields ct n ios
        (m0\<lparr>mem := map_anon (map_file Map.empty 0 0x8000 (cartridge ios) 0) 0x8000 0x8000,
            fd := open_fd ios\<rparr>) fname = Inr m"
      using assms by (simp add: gb_memory_init_def split: if_splits sum.splits)
    from keep [OF this] show ?thesis by (simp add: accessible_def map_anon_def)
  qed
qed

lemma reachable_rw:
  "reachable ct n s \<Longrightarrow> accessible (mem (memory s)) 0x8000 0x8000"
proof (induction rule: reachable.induct)
  case (reach_init ios fds m0 fname m fds' ks bs)
  then show ?case using init_rw by simp
next
  case (reach_write s os fb addr v s')
  then show ?case using write_keeps_rw by blast
qed

lemma reachable_mapped:
  assumes "reachable ct n s" and "0x8000 \<le> a" and "a < 0x10000"
  shows "mem (memory s) a \<noteq> None"
proof -
  have "a - 0x8000 \<in> {0..<0x8000}" using assms(2,3) by auto
  then have "mem (memory s) (0x8000 + (a - 0x8000)) \<noteq> None"
    using reachable_rw [OF assms(1)] unfolding accessible_def by blast
  then show ?thesis using assms(2) by simp
qed

section \<open>Writes to high memory invalidate compiled blocks\<close>

text \<open>
  C1.  A store to an address \<open>a\<close> in \<open>[0xff80, 0x10000)\<close> first walks the blocks that
  start in \<open>[0xff80, a)\<close>, that is the indices below \<open>a - 0xff80\<close>: a block there that is
  live (\<open>exec_count \<noteq> 0\<close>) and whose \<open>end_address\<close> is strictly greater than \<open>a\<close> is handed to
  \<open>free_block\<close> and gets \<open>exec_count = 0\<close>; every other block is left as it is.  Then the
  byte at \<open>a\<close> is the written value.  Nothing else of the machine changes.  So a live
  block that ends at \<open>0xffa0\<close> survives a store to \<open>0xffa5\<close>, and a live block in the walked
  prefix that ends at \<open>0xff90\<close> is invalidated by a store to \<open>0xff85\<close>.  The byte at \<open>a\<close> is
  mapped in every state of a session (\<open>reachable_mapped\<close>).
\<close>

theorem highmem_write_invalidates:
  assumes "unat (addr AND 0xffff) = a" and "0xff80 \<le> a" and "mem (memory s) a \<noteq> None"
  shows "gb_memory_write os fb s addr v =
     Inr (s\<lparr>highmem_blocks :=
              (\<lambda>i. if i < a - 0xff80 \<and> exec_count (highmem_blocks s i) \<noteq> 0
                       \<and> end_address (highmem_blocks s i) > a
                    then (fb (highmem_blocks s i))\<lparr>exec_count := 0\<rparr>
                    else highmem_blocks s i),
            memory := (memory s)\<lparr>mem := (mem (memory s))(a \<mapsto> ucast (v AND 0xff))\<rparr>\<rparr>)"
  using assms
  by (auto simp: gb_memory_write_def Let_def set_mem_def poke_def invalidate_blocks_eq)

theorem highmem_write_invalidates_witness:
  "unat ((0xff85 :: u64) AND 0xffff) = 0xff85 \<and> (0xff80 :: nat) \<le> 0xff85
   \<and> mem (memory hot_session) 0xff85 \<noteq> None
   \<and> (\<exists>s'. gb_memory_write (good_sys 0) release_block hot_session 0xff85 0x42 = Inr s'
         \<and> highmem_blocks s' 2 = \<lparr>exec_count = 0, end_address = 0\<rparr>
         \<and> highmem_blocks s' 5 = \<lparr>exec_count = 1, end_address = 0xffa0\<rparr>
         \<and> mem (memory s') 0xff85 = Some 0x42)
   \<and> unat ((0xffa5 :: u64) AND 0xffff) = 0xffa5 \<and> (0xff80 :: nat) \<le> 0xffa5
   \<and> mem (memory hot_session) 0xffa5 \<noteq> None
   \<and> (\<exists>s'. gb_memory_write (good_sys 0) release_block hot_session 0xffa5 0x42 = Inr s'
         \<and> highmem_blocks s' 3 = \<lparr>exec_count = 1, end_address = 0xffa0\<rparr>
         \<and> highmem_blocks s' 2 = \<lparr>exec_count = 1, end_address = 0xff90\<rparr>
         \<and> mem (memory s') 0xffa5 = Some 0x42)"
proof -
  have m1: "mem (memory hot_session) 0xff85 \<noteq> None"
    and m2: "mem (memory hot_session) 0xffa5 \<noteq> None"
    by (simp_all add: hot_session_def session_mem_high)
  have a1: "unat ((0xff85 :: u64) AND 0xffff) = 0xff85"
    and a2: "unat ((0xffa5 :: u64) AND 0xffff) = 0xffa5"
    by simp_all
  note w1 = highmem_write_invalidates [OF a1 _ m1, of "good_sys 0" release_block "0x42"]
  note w2 = highmem_write_invalidates [OF a2 _ m2, of "good_sys 0" release_block "0x42"]
  show ?thesis
    using m1 m2 w1 w2 by (simp add: hot_session_def release_block_def)
qed

section \<open>Switching RAM banks\<close>

text \<open>
  C2.  Let \<open>a\<close> and \<open>b\<close> be distinct bank indices inside the bank store.  After
  \<open>gb_memory_change_ram_bank\<close> has selected \<open>a\<close> (with \<open>rtc_access\<close> false), after any stores
  into the window \<open>[0xa000, 0xc000)\<close>, after selecting \<open>b\<close> and then \<open>a\<close> again, the window
  holds byte for byte what it held after the stores; in particular the byte of the last
  store is there.  While the clock register is exposed (\<open>rtc_access\<close> true) the window is
  not saved when another bank is selected: coming back to \<open>a\<close> shows what the bank store
  held for \<open>a\<close>, whatever the window held.
\<close>

theorem ram_bank_round_trip:
  assumes "gb_memory_change_ram_bank m0 a = Inr (memory s1)"
    and "\<not> rtc_access (memory s1)"
    and "a \<noteq> b" and "0 \<le> a" and "0 \<le> b"
    and "accessible (mem (memory s1)) 0xa000 0x2000"
    and "accessible (ram_banks (memory s1)) (bank_offset a) 0x2000"
    and "accessible (ram_banks (memory s1)) (bank_offset b) 0x2000"
    and "\<forall>(os, addr, v)\<in>set ws.
           0xa000 \<le> unat (addr AND 0xffff) \<and> unat (addr AND 0xffff) < 0xc000"
    and "run_writes fb s1 ws = Inr s2"
  shows "(\<exists>m3 m4. gb_memory_change_ram_bank (memory s2) b = Inr m3
          \<and> gb_memory_change_ram_bank m3 a = Inr m4
          \<and> (\<forall>x\<in>{0xa000..<0xc000}. mem m4 x = mem (memory s2) x)
          \<and> (\<forall>ws' os addr v. ws = ws' @ [(os, addr, v)]
                \<longrightarrow> mem m4 (unat (addr AND 0xffff)) = Some (ucast (v AND 0xff)))
          \<and> current_ram_bank m4 = a \<and> \<not> rtc_access m4)
     \<and> (\<forall>m m3 m4 j. rtc_access m \<and> current_ram_bank m = a
            \<and> gb_memory_change_ram_bank m b = Inr m3
            \<and> gb_memory_change_ram_bank m3 a = Inr m4 \<and> j < 0x2000
          \<longrightarrow> mem m4 (0xa000 + j) = ram_banks m (bank_offset a + j))"
proof -
  note kept = run_window_writes [OF assms(9,10)]
  have cur: "current_ram_bank (memory s2) = a"
    using kept change_ram_bank_current [OF assms(1)] by simp
  have "\<exists>m3 m4. gb_memory_change_ram_bank (memory s2) b = Inr m3
     \<and> gb_memory_change_ram_bank m3 a = Inr m4
     \<and> (\<forall>x\<in>{0xa000..<0xc000}. mem m4 x = mem (memory s2) x)
     \<and> current_ram_bank m4 = a \<and> \<not> rtc_access m4"
    using cur kept assms(2-8) by (intro ram_round_trip_core) simp_all
  then obtain m3 m4 where
    s3: "gb_memory_change_ram_bank (memory s2) b = Inr m3"
    and s4: "gb_memory_change_ram_bank m3 a = Inr m4"
    and win: "\<forall>x\<in>{0xa000..<0xc000}. mem m4 x = mem (memory s2) x"
    and fin: "current_ram_bank m4 = a \<and> \<not> rtc_access m4"
    by blast
  have "mem m4 (unat (addr AND 0xffff)) = Some (ucast (v AND 0xff))"
    if "ws = ws' @ [(os, addr, v)]" for ws' os addr v
  proof -
    have in_win: "0xa000 \<le> unat (addr AND 0xffff) \<and> unat (addr AND 0xffff) < 0xc000"
      using assms(9) that by simp
    then have "mem (memory s2) (unat (addr AND 0xffff)) = Some (ucast (v AND 0xff))"
      using run_writes_last [of fb s1 ws' os addr v s2] assms(10) that by simp
    then show ?thesis using win in_win by simp
  qed
  then have first: "\<exists>m3 m4. gb_memory_change_ram_bank (memory s2) b = Inr m3
          \<and> gb_memory_change_ram_bank m3 a = Inr m4
          \<and> (\<forall>x\<in>{0xa000..<0xc000}. mem m4 x = mem (memory s2) x)
          \<and> (\<forall>ws' os addr v. ws = ws' @ [(os, addr, v)]
                \<longrightarrow> mem m4 (unat (addr AND 0xffff)) = Some (ucast (v AND 0xff)))
          \<and> current_ram_bank m4 = a \<and> \<not> rtc_access m4"
    using s3 s4 win fin by blast
  have second: "\<forall>m m3 m4 j. rtc_access m \<and> current_ram_bank m = a
            \<and> gb_memory_change_ram_bank m b = Inr m3
            \<and> gb_memory_change_ram_bank m3 a = Inr m4 \<and> j < 0x2000
          \<longrightarrow> mem m4 (0xa000 + j) = ram_banks m (bank_offset a + j)"
    using rtc_window_not_saved [OF _ _ assms(3)] by blast
  show ?thesis using first second by (rule conjI)
qed

theorem ram_bank_round_trip_witness:
  "gb_memory_change_ram_bank (session_memory 0x13) 1 = Inr (memory bank1_session)
   \<and> \<not> rtc_access (memory bank1_session) \<and> (1 :: int) \<noteq> 2
   \<and> accessible (mem (memory bank1_session)) 0xa000 0x2000
   \<and> accessible (ram_banks (memory bank1_session)) (bank_offset 1) 0x2000
   \<and> accessible (ram_banks (memory bank1_session)) (bank_offset 2) 0x2000
   \<and> (\<exists>s2 m3 m4.
         run_writes release_block bank1_session
           [(good_sys 0x13, 0xa000, 0x55), (good_sys 0x13, 0xa123, 0x66)] = Inr s2
         \<and> mem (memory s2) 0xa000 = Some 0x55 \<and> mem (memory s2) 0xa123 = Some 0x66
         \<and> gb_memory_change_ram_bank (memory s2) 2 = Inr m3
         \<and> gb_memory_change_ram_bank m3 1 = Inr m4
         \<and> mem m4 0xa000 = Some 0x55 \<and> mem m4 0xa123 = Some 0x66)
   \<and> gb_memory_write (good_sys 0x11) release_block rtc_session 0xa000 0x55 = Inr rtc_written
   \<and> rtc_access (memory rtc_written) \<and> current_ram_bank (memory rtc_written) = 0
   \<and> mem (memory rtc_written) 0xa000 = Some 0x55
   \<and> (\<exists>m3 m4. gb_memory_change_ram_bank (memory rtc_written) 1 = Inr m3
         \<and> gb_memory_change_ram_bank m3 0 = Inr m4
         \<and> mem m4 0xa000 = Some 0)"
proof -
  note b = bank1_select
  let ?ws = "[(good_sys 0x13, 0xa000 :: u64, 0x55 :: u64), (good_sys 0x13, 0xa123, 0x66)]"
  let ?s2 = "bank1_session\<lparr>memory := (memory bank1_session)\<lparr>mem :=
      (mem (memory bank1_session))(0xa000 \<mapsto> 0x55, 0xa123 \<mapsto> 0x66)\<rparr>\<rparr>"
  have m: "mem (memory bank1_session) 0xa000 \<noteq> None" "mem (memory bank1_session) 0xa123 \<noteq> None"
    using b [THEN conjunct2, THEN conjunct2, THEN conjunct1]
    unfolding accessible_def by (auto dest: bspec [of _ _ 0] bspec [of _ _ "0x123"])
  have run: "run_writes release_block bank1_session ?ws = Inr ?s2"
    using m by (simp add: gb_memory_write_def Let_def set_mem_def poke_def)
  have inwin: "\<forall>(os, addr, v)\<in>set ?ws.
      0xa000 \<le> unat (addr AND 0xffff) \<and> unat (addr AND 0xffff) < 0xc000"
    by simp
  from ram_bank_round_trip [OF b [THEN conjunct1] b [THEN conjunct2, THEN conjunct1] _ _ _
      b [THEN conjunct2, THEN conjunct2, THEN conjunct1]
      b [THEN conjunct2, THEN conjunct2, THEN conjunct2, THEN conjunct1]
      b [THEN conjunct2, THEN conjunct2, THEN conjunct2, THEN conjunct2] inwin run]
  obtain m3 m4 where s3: "gb_memory_change_ram_bank (memory ?s2) 2 = Inr m3"
    and s4: "gb_memory_change_ram_bank m3 1 = Inr m4"
    and win: "\<forall>x\<in>{0xa000..<0xc000}. mem m4 x = mem (memory ?s2) x"
    by auto
  have v: "mem (memory ?s2) 0xa000 = Some 0x55 \<and> mem (memory ?s2) 0xa123 = Some 0x66"
    by simp
  have "mem m4 0xa000 = Some 0x55 \<and> mem m4 0xa123 = Some 0x66"
    using win [THEN bspec, of "0xa000"] win [THEN bspec, of "0xa123"] v by simp
  then have first: "\<exists>s2 m3 m4.
         run_writes release_block bank1_session ?ws = Inr s2
         \<and> mem (memory s2) 0xa000 = Some 0x55 \<and> mem (memory s2) 0xa123 = Some 0x66
         \<and> gb_memory_change_ram_bank (memory s2) 2 = Inr m3
         \<and> gb_memory_change_ram_bank m3 1 = Inr m4
         \<and> mem m4 0xa000 = Some 0x55 \<and> mem m4 0xa123 = Some 0x66"
    using run s3 s4 v by (intro exI [of _ ?s2] exI [of _ m3] exI [of _ m4]) simp
  have r: "rtc_access (memory rtc_written)" "current_ram_bank (memory rtc_written) = 0"
    "mem (memory rtc_written) 0xa000 = Some 0x55"
    "ram_banks (memory rtc_written) (bank_offset 0 + 0) = Some 0"
    by (simp_all add: rtc_written_def rtc_session_def session_memory_def bank_offset_def)
  have noop: "gb_memory_change_ram_bank (session_memory 0x13) 0 = Inr (memory (session 0x13))"
    by (simp add: gb_memory_change_ram_bank_def session_def session_memory_def)
  have plain: "\<not> rtc_access (memory (session 0x13))"
    by (simp add: session_def session_memory_def)
  have acc: "accessible (mem (memory (session 0x13))) 0xa000 0x2000"
    "accessible (ram_banks (memory (session 0x13))) (bank_offset 0) 0x2000"
    "accessible (ram_banks (memory (session 0x13))) (bank_offset 1) 0x2000"
    by (simp_all add: session_def session_window session_slot)
  have none: "\<forall>(os, addr, v)\<in>set ([] :: (sys \<times> u64 \<times> u64) list).
      0xa000 \<le> unat (addr AND 0xffff) \<and> unat (addr AND 0xffff) < 0xc000"
    by simp
  have idle: "run_writes release_block (session 0x13) [] = Inr (session 0x13)" by simp
  have "(0 :: int) \<noteq> 1" "(0 :: int) \<le> 0" "(0 :: int) \<le> 1" by simp_all
  note trip = ram_bank_round_trip [OF noop plain this acc none idle, THEN conjunct2]
  have lost: "mem m4 (0xa000 + j) = ram_banks m (bank_offset 0 + j)"
    if "rtc_access m" and "current_ram_bank m = 0"
      and "gb_memory_change_ram_bank m 1 = Inr m3"
      and "gb_memory_change_ram_bank m3 0 = Inr m4" and "j < 0x2000"
    for m m3 m4 j
    using trip that by blast
  from rtc_written_trip obtain n3 n4 where
    t3: "gb_memory_change_ram_bank (memory rtc_written) 1 = Inr n3"
    and t4: "gb_memory_change_ram_bank n3 0 = Inr n4"
    by blast
  have "mem n4 0xa000 = Some 0"
    using lost [OF r(1,2) t3 t4, of 0] r(4) by simp
  then have second: "\<exists>m3 m4. gb_memory_change_ram_bank (memory rtc_written) 1 = Inr m3
         \<and> gb_memory_change_ram_bank m3 0 = Inr m4 \<and> mem m4 0xa000 = Some 0"
    using t3 t4 by blast
  show ?thesis
    using b first second r(1,2,3) rtc_written_write by simp
qed

section \<open>The ROM bank register of the MBC1 family\<close>

text \<open>
  C3 (as amended).  For the MBC1 family (the case labels \<open>MBC1\<close>, \<open>MBC1_RAM_BAT\<close>, \<open>MBC2\<close>,
  \<open>MBC2_BAT\<close>) and any prior controller state, a store of \<open>v\<close> to an address in
  \<open>[0x2000, 0x4000)\<close> composes \<open>bank = (v & 0x1f) | (mode ? 0 : upper_bits & 0x60)\<close>; if the
  low five bits of \<open>bank\<close> are zero it sets bit 0 (\<open>bank |= 1\<close>, which is \<open>bank + 1\<close>: bank 1
  when the upper bits are zero, and \<open>0x21\<close>, \<open>0x41\<close> or \<open>0x61\<close> otherwise); it then calls
  \<open>gb_memory_change_rom_bank\<close> with that bank, which is never 0 and becomes
  \<open>current_rom_bank\<close> when \<open>munmap\<close> and \<open>mmap\<close> succeed.
\<close>

theorem mbc1_rom_bank_select:
  assumes "mbc (memory s) \<in> {MBC1, MBC1_RAM_BAT, MBC2, MBC2_BAT}"
    and "unat (addr AND 0xffff) = a" and "0x2000 \<le> a" and "a < 0x4000"
    and "bank = uint ((ucast (v AND 0xff) :: u8) AND 0x1f)
                  OR (if mbc_mode (memory s) \<noteq> 0 then 0 else mbc_data (memory s) AND 0x60)"
    and "sel = (if bank AND 0x1f = 0 then bank OR 1 else bank)"
  shows "gb_memory_write os fb s addr v =
           Inr (s\<lparr>memory := gb_memory_change_rom_bank os (memory s) sel\<rparr>)
     \<and> (munmap_ok os \<and> mmap_ok os
          \<longrightarrow> current_rom_bank (gb_memory_change_rom_bank os (memory s) sel) = sel)
     \<and> (bank AND 0x1f = 0 \<longrightarrow> sel = bank + 1)
     \<and> sel \<noteq> 0"
proof -
  have "a < 0x8000" using assms(4) by simp
  then have w: "gb_memory_write os fb s addr v =
           Inr (s\<lparr>memory := gb_memory_change_rom_bank os (memory s) sel\<rparr>)"
    using assms(1-4) unfolding assms(5,6)
    by (simp add: write_low mbc_write_mbc1 mbc1_write_def Let_def)
  have "0 \<le> bank" unfolding assms(5) by (rule mbc1_bank_nonneg)
  then have "0 \<le> sel" unfolding assms(6) by simp
  then have ok: "munmap_ok os \<and> mmap_ok os
          \<longrightarrow> current_rom_bank (gb_memory_change_rom_bank os (memory s) sel) = sel"
    by (simp add: change_rom_bank_ok)
  have "bank AND 0x1f = 0 \<longrightarrow> sel = bank + 1"
    unfolding assms(6) by (simp add: or_one_of_cleared)
  moreover have "sel \<noteq> 0"
    unfolding assms(6) by (rule mbc1_bank_nonzero)
  ultimately show ?thesis using w ok by blast
qed

text \<open>
  The two examples of the claim: after \<open>(0x4000, 0x01)\<close> the store \<open>(0x2100, 0x05)\<close> selects
  bank \<open>0x25\<close>, and in a fresh session the store \<open>(0x2100, 0x00)\<close> selects bank 1.
\<close>

theorem mbc1_rom_bank_select_witness:
  "mbc (memory mbc1_latched) \<in> {MBC1, MBC1_RAM_BAT, MBC2, MBC2_BAT}
   \<and> unat ((0x2100 :: u64) AND 0xffff) = 0x2100
   \<and> mbc_mode (memory mbc1_latched) = 0 \<and> mbc_data (memory mbc1_latched) = 0x20
   \<and> (\<exists>s'. gb_memory_write (good_sys 0x01) release_block mbc1_latched 0x2100 0x05 = Inr s'
          \<and> current_rom_bank (memory s') = 0x25)
   \<and> mbc_mode (memory (session 0x01)) = 0 \<and> mbc_data (memory (session 0x01)) = 0
   \<and> (\<exists>s'. gb_memory_write (good_sys 0x01) release_block (session 0x01) 0x2100 0x00 = Inr s'
          \<and> current_rom_bank (memory s') = 1)"
proof -
  have t1: "mbc (memory mbc1_latched) \<in> {MBC1, MBC1_RAM_BAT, MBC2, MBC2_BAT}"
    and t2: "mbc (memory (session 0x01)) \<in> {MBC1, MBC1_RAM_BAT, MBC2, MBC2_BAT}"
    by (simp_all add: mbc1_latched_def session_def session_memory_def header_type_def)
  have a: "unat ((0x2100 :: u64) AND 0xffff) = 0x2100" by simp
  have ok: "munmap_ok (good_sys 0x01) \<and> mmap_ok (good_sys 0x01)"
    by (simp add: good_sys_def)
  have f1: "mbc_mode (memory mbc1_latched) = 0 \<and> mbc_data (memory mbc1_latched) = 0x20"
    and f2: "mbc_mode (memory (session 0x01)) = 0 \<and> mbc_data (memory (session 0x01)) = 0"
    by (simp_all add: mbc1_latched_def session_def session_memory_def)
  note w1 = mbc1_rom_bank_select [OF t1 a _ _ refl refl,
      where v = "0x05" and os = "good_sys 0x01" and fb = release_block]
  note w2 = mbc1_rom_bank_select [OF t2 a _ _ refl refl,
      where v = "0x00" and os = "good_sys 0x01" and fb = release_block]
  have r1: "\<exists>s'. gb_memory_write (good_sys 0x01) release_block mbc1_latched 0x2100 0x05 = Inr s'
          \<and> current_rom_bank (memory s') = 0x25"
    using w1 ok f1 by simp
  have r2: "\<exists>s'. gb_memory_write (good_sys 0x01) release_block (session 0x01) 0x2100 0x00 = Inr s'
          \<and> current_rom_bank (memory s') = 1"
    using w2 ok f2 by simp
  show ?thesis using t1 a f1 f2 r1 r2 by blast
qed

text \<open>
  The claim as stated says the store forces bank 1 whenever the low five bits of the
  composed bank are zero.  After \<open>(0x4000, 0x01)\<close> has latched \<open>0x20\<close>, the store
  \<open>(0x2100, 0x00)\<close> composes \<open>0x20\<close>, whose low five bits are zero, and selects bank \<open>0x21\<close>.
\<close>

theorem mbc1_zero_bank_counterexample:
  "gb_memory_write (good_sys 0x01) release_block (session 0x01) 0x4000 0x01 = Inr mbc1_latched
   \<and> mbc (memory mbc1_latched) = MBC1
   \<and> mbc_mode (memory mbc1_latched) = 0 \<and> mbc_data (memory mbc1_latched) = 0x20
   \<and> (uint ((ucast ((0x00 :: u64) AND 0xff) :: u8) AND 0x1f) OR
        (mbc_data (memory mbc1_latched) AND 0x60)) AND 0x1f = 0
   \<and> (\<exists>s'. gb_memory_write (good_sys 0x01) release_block mbc1_latched 0x2100 0x00 = Inr s'
          \<and> current_rom_bank (memory s') = 0x21 \<and> current_rom_bank (memory s') \<noteq> 1)"
proof -
  have "gb_memory_write (good_sys 0x01) release_block mbc1_latched 0x2100 0x00 =
      Inr (mbc1_latched\<lparr>memory :=
             gb_memory_change_rom_bank (good_sys 0x01) (memory mbc1_latched) 0x21\<rparr>)"
    by (simp add: write_low mbc_write_mbc1 mbc1_write_def mbc1_latched_def session_def
        session_memory_def header_type_def)
  moreover have "current_rom_bank
      (gb_memory_change_rom_bank (good_sys 0x01) (memory mbc1_latched) 0x21) = 0x21"
    by (simp add: change_rom_bank_ok good_sys_def)
  moreover have "mbc (memory mbc1_latched) = MBC1
   \<and> mbc_mode (memory mbc1_latched) = 0 \<and> mbc_data (memory mbc1_latched) = 0x20"
    by (simp add: mbc1_latched_def session_def session_memory_def header_type_def)
  ultimately show ?thesis
    by (simp add: mbc1_latch_write)
qed

section \<open>The ROM bank is never 0, except with MBC5\<close>

text \<open>
  C4 (as amended).  In every state reached from a successful \<open>gb_memory_init\<close> by guest
  stores, \<open>current_rom_bank\<close> is not 0 as long as the cartridge is not an MBC5 (\<open>MBC5\<close>,
  \<open>MBC5_RAM_BAT\<close>): initialisation sets it to 1, the MBC1 family and MBC3 never pass bank 0
  to \<open>gb_memory_change_rom_bank\<close>, and the other kinds never change it.
\<close>

theorem rom_bank_nonzero_unless_mbc5:
  assumes "reachable ct n s" and "mbc (memory s) \<notin> {MBC5, MBC5_RAM_BAT}"
  shows "current_rom_bank (memory s) \<noteq> 0"
  using assms
proof (induction rule: reachable.induct)
  case (reach_init ios fds m0 fname m fds' ks bs)
  then show ?case using init_rom_bank [OF reach_init.hyps] by simp
next
  case (reach_write s os fb addr v s')
  from write_keeps [OF reach_write.hyps(2)] reach_write.prems reach_write.IH
  show ?case by simp
qed

theorem rom_bank_nonzero_unless_mbc5_witness:
  "reachable header_type 16 mbc1_latched
   \<and> mbc (memory mbc1_latched) \<notin> {MBC5, MBC5_RAM_BAT}
   \<and> current_rom_bank (memory mbc1_latched) \<noteq> 0"
proof -
  have r: "reachable header_type 16 mbc1_latched"
    using session_reachable mbc1_latch_write by (rule reach_write)
  have k: "mbc (memory mbc1_latched) \<notin> {MBC5, MBC5_RAM_BAT}"
    by (simp add: mbc1_latched_def session_def session_memory_def header_type_def)
  from rom_bank_nonzero_unless_mbc5 [OF r k] show ?thesis using r k by simp
qed

text \<open>
  The claim as stated covers every supported controller.  The session of an MBC5
  cartridge is reachable, and so is the state after its store \<open>(0x2100, 0x00)\<close>, in which
  \<open>current_rom_bank\<close> is 0.
\<close>

theorem rom_bank_zero_counterexample:
  "reachable header_type 16 (session 0x19)
   \<and> current_rom_bank (memory (session 0x19)) = 1
   \<and> (\<exists>s'. gb_memory_write (good_sys 0x19) release_block (session 0x19) 0x2100 0x00 = Inr s'
          \<and> reachable header_type 16 s' \<and> current_rom_bank (memory s') = 0)"
proof -
  let ?s' = "(session 0x19)\<lparr>memory :=
            gb_memory_change_rom_bank (good_sys 0x19) (memory (session 0x19)) 0\<rparr>"
  have "reachable header_type 16 ?s'"
    using session_reachable mbc5_select_zero by (rule reach_write)
  moreover have "current_rom_bank (memory ?s') = 0"
    by (simp add: change_rom_bank_ok good_sys_def)
  moreover have "current_rom_bank (memory (session 0x19)) = 1"
    by (simp add: session_def session_memory_def)
  ultimately show ?thesis
    using session_reachable mbc5_select_zero by blast
qed

section \<open>The ROM bank register of MBC5\<close>

text \<open>
  C5.  For MBC5 a store of \<open>v\<close> to an address in \<open>[0x2000, 0x4000)\<close> calls
  \<open>gb_memory_change_rom_bank\<close> with the whole byte \<open>v\<close> as the bank, neither masked nor
  forced away from zero; when \<open>munmap\<close> and \<open>mmap\<close> succeed, \<open>current_rom_bank\<close> is \<open>v\<close>
  afterwards.  So the store \<open>(0x2100, 0x00)\<close> selects bank 0.
\<close>

theorem mbc5_rom_bank_select:
  assumes "mbc (memory s) \<in> {MBC5, MBC5_RAM_BAT}"
    and "unat (addr AND 0xffff) = a" and "0x2000 \<le> a" and "a < 0x4000"
    and "bank = uint (ucast (v AND 0xff) :: u8)"
  shows "gb_memory_write os fb s addr v =
           Inr (s\<lparr>memory := gb_memory_change_rom_bank os (memory s) bank\<rparr>)
     \<and> (munmap_ok os \<and> mmap_ok os
          \<longrightarrow> current_rom_bank (gb_memory_change_rom_bank os (memory s) bank) = bank)"
proof -
  have "a < 0x8000" using assms(4) by simp
  then have "gb_memory_write os fb s addr v =
           Inr (s\<lparr>memory := gb_memory_change_rom_bank os (memory s) bank\<rparr>)"
    using assms by (simp add: write_low mbc_write_mbc5 mbc5_write_def)
  moreover have "0 \<le> bank" unfolding assms(5) by simp
  ultimately show ?thesis by (simp add: change_rom_bank_ok)
qed

theorem mbc5_rom_bank_select_witness:
  "mbc (memory (session 0x19)) \<in> {MBC5, MBC5_RAM_BAT}
   \<and> unat ((0x2100 :: u64) AND 0xffff) = 0x2100
   \<and> munmap_ok (good_sys 0x19) \<and> mmap_ok (good_sys 0x19)
   \<and> current_rom_bank (memory (session 0x19)) = 1
   \<and> (\<exists>s'. gb_memory_write (good_sys 0x19) release_block (session 0x19) 0x2100 0x00 = Inr s'
          \<and> current_rom_bank (memory s') = 0)
   \<and> (\<exists>s'. gb_memory_write (good_sys 0x19) release_block (session 0x19) 0x2100 0xe0 = Inr s'
          \<and> current_rom_bank (memory s') = 0xe0)"
proof -
  have t: "mbc (memory (session 0x19)) \<in> {MBC5, MBC5_RAM_BAT}"
    by (simp add: session_def session_memory_def header_type_def)
  have a: "unat ((0x2100 :: u64) AND 0xffff) = 0x2100" by simp
  have ok: "munmap_ok (good_sys 0x19) \<and> mmap_ok (good_sys 0x19)"
    by (simp add: good_sys_def)
  have c: "current_rom_bank (memory (session 0x19)) = 1"
    by (simp add: session_def session_memory_def)
  note w1 = mbc5_rom_bank_select [OF t a _ _ refl,
      where v = "0x00" and os = "good_sys 0x19" and fb = release_block]
  note w2 = mbc5_rom_bank_select [OF t a _ _ refl,
      where v = "0xe0" and os = "good_sys 0x19" and fb = release_block]
  have r1: "\<exists>s'. gb_memory_write (good_sys 0x19) release_block (session 0x19) 0x2100 0x00 = Inr s'
          \<and> current_rom_bank (memory s') = 0"
    using w1 ok by simp
  have r2: "\<exists>s'. gb_memory_write (good_sys 0x19) release_block (session 0x19) 0x2100 0xe0 = Inr s'
          \<and> current_rom_bank (memory s') = 0xe0"
    using w2 ok by simp
  show ?thesis using t a ok c r1 r2 by blast
qed

section \<open>A failed initialisation\<close>

text \<open>
  C6.  When \<open>open\<close> has succeeded and one of the two mappings fails, \<open>gb_memory_init\<close>
  returns false through an early return that neither closes the descriptor nor removes
  the first mapping: the descriptor is still among those the process holds, and after a
  failure of the second mapping the first 32 KiB are still mapped.  When \<open>open\<close> itself
  fails, nothing was acquired and the set of descriptors is unchanged.
\<close>

theorem init_failure_keeps_resources:
  assumes "0 \<le> open_fd ios" and "\<not> first_mmap_ok ios \<or> \<not> second_mmap_ok ios"
  shows "\<exists>m'. gb_memory_init ct n ios fds m0 (Some name) =
                 Inr (False, m', insert (open_fd ios) fds)
     \<and> fd m' = open_fd ios
     \<and> (first_mmap_ok ios \<longrightarrow> (\<forall>x\<in>{0..<0x8000}. mem m' x = cartridge ios x))"
  using assms by (auto simp: gb_memory_init_def map_file_def)

theorem init_failure_keeps_resources_witness:
  "(0 :: int) \<le> open_fd ((good_init 0)\<lparr>first_mmap_ok := False\<rparr>)
   \<and> \<not> first_mmap_ok ((good_init 0)\<lparr>first_mmap_ok := False\<rparr>)
   \<and> (\<exists>m'. gb_memory_init header_type 16 ((good_init 0)\<lparr>first_mmap_ok := False\<rparr>) {}
              blank_memory (Some ''rom.gb'') = Inr (False, m', {3})
          \<and> fd m' = 3)
   \<and> \<not> second_mmap_ok ((good_init 0)\<lparr>second_mmap_ok := False\<rparr>)
   \<and> (\<exists>m'. gb_memory_init header_type 16 ((good_init 0)\<lparr>second_mmap_ok := False\<rparr>) {}
              blank_memory (Some ''rom.gb'') = Inr (False, m', {3})
          \<and> fd m' = 3 \<and> mem m' 0x0147 = Some 0)"
proof -
  let ?i1 = "(good_init 0)\<lparr>first_mmap_ok := False\<rparr>"
  let ?i2 = "(good_init 0)\<lparr>second_mmap_ok := False\<rparr>"
  have f: "open_fd ?i1 = 3" "open_fd ?i2 = 3" "\<not> first_mmap_ok ?i1" "\<not> second_mmap_ok ?i2"
    "first_mmap_ok ?i2" "cartridge ?i2 0x0147 = Some 0"
    by (simp_all add: good_init_def blank_rom_def)
  have p1: "0 \<le> open_fd ?i1" and p2: "0 \<le> open_fd ?i2" using f by simp_all
  have q1: "\<not> first_mmap_ok ?i1 \<or> \<not> second_mmap_ok ?i1"
    and q2: "\<not> first_mmap_ok ?i2 \<or> \<not> second_mmap_ok ?i2"
    using f by simp_all
  from init_failure_keeps_resources [OF p1 q1, of header_type 16 "{}" blank_memory "''rom.gb''"]
  have r1: "\<exists>m'. gb_memory_init header_type 16 ?i1 {} blank_memory (Some ''rom.gb'') =
                Inr (False, m', {3}) \<and> fd m' = 3"
    using f by auto
  from init_failure_keeps_resources [OF p2 q2, of header_type 16 "{}" blank_memory "''rom.gb''"]
  obtain m' where e: "gb_memory_init header_type 16 ?i2 {} blank_memory (Some ''rom.gb'') =
                Inr (False, m', {3})" and d: "fd m' = 3"
    and c: "\<forall>x\<in>{0..<0x8000}. mem m' x = cartridge ?i2 x"
    using f by auto
  have "mem m' 0x0147 = Some 0" using c [THEN bspec, of "0x0147"] f by simp
  then have r2: "\<exists>m'. gb_memory_init header_type 16 ?i2 {} blank_memory (Some ''rom.gb'') =
                Inr (False, m', {3}) \<and> fd m' = 3 \<and> mem m' 0x0147 = Some 0"
    using e d by blast
  show ?thesis using f r1 r2 by simp
qed

section \<open>The serial data register\<close>

text \<open>
  C7 (as amended).  A store to \<open>0xff01\<close> is accepted and dropped: the branch for this
  address only logs, so the call returns the machine unchanged and the byte at \<open>0xff01\<close>
  keeps the value it had.
\<close>

theorem serial_write_ignored:
  assumes "unat (addr AND 0xffff) = 0xff01"
  shows "gb_memory_write os fb s addr v = Inr s"
  using assms by (simp add: gb_memory_write_def Let_def)

theorem serial_write_ignored_witness:
  "unat ((0xff01 :: u64) AND 0xffff) = 0xff01
   \<and> gb_memory_write (good_sys 0) release_block (session 0) 0xff01 0x42 = Inr (session 0)
   \<and> mem (memory (session 0)) 0xff01 = Some 0"
  using serial_write_ignored [of "0xff01" "good_sys 0" release_block "session 0" "0x42"]
  by (simp add: session_mem_high)

text \<open>
  The claim as stated says the byte at \<open>0xff01\<close> equals the written value afterwards.  In a
  fresh session the byte is 0, and it is not \<open>0x42\<close> after the store \<open>(0xff01, 0x42)\<close>.
\<close>

theorem serial_write_counterexample:
  "\<not> (\<exists>s'. gb_memory_write (good_sys 0) release_block (session 0) 0xff01 0x42 = Inr s'
          \<and> mem (memory s') 0xff01 = Some 0x42)"
  by (simp add: gb_memory_write_def Let_def session_mem_high)

section \<open>The joypad register\<close>

text \<open>
  C8.  A store of the select mask \<open>v\<close> to \<open>0xff00\<close> does not store \<open>v\<close>: the byte at \<open>0xff00\<close>
  becomes the bitwise complement of the OR of the selected nibbles of the key state.  The
  low nibble (\<open>state & 0x0f\<close>) is selected when the mask has a bit set other than bit 4, the
  high nibble (\<open>state >> 4\<close>) when it has a bit set other than bit 5.  Nothing else changes.
  With the keys \<open>0x05\<close> pressed, the mask \<open>0x20\<close> stores \<open>~0x05 & 0xff = 0xfa\<close> and the mask
  \<open>0x10\<close> stores \<open>0xff\<close>.  The byte at \<open>0xff00\<close> is mapped in every state of a session
  (\<open>reachable_mapped\<close>).
\<close>

theorem joypad_write:
  assumes "unat (addr AND 0xffff) = 0xff00" and "mem (memory s) 0xff00 \<noteq> None"
  shows "gb_memory_write os fb s addr v =
     Inr (s\<lparr>memory := (memory s)\<lparr>mem := (mem (memory s))(0xff00 \<mapsto>
        NOT ((if (ucast (v AND 0xff) :: u8) AND 0xef = 0 then 0 else state (keys s) AND 0x0f)
             OR (if (ucast (v AND 0xff) :: u8) AND 0xdf = 0 then 0
                 else drop_bit 4 (state (keys s)))))\<rparr>\<rparr>)"
  using assms
  by (simp add: gb_memory_write_def Let_def set_mem_def poke_def get_joypad_state_eq)

theorem joypad_write_witness:
  "unat ((0xff00 :: u64) AND 0xffff) = 0xff00
   \<and> mem (memory pressed_session) 0xff00 \<noteq> None
   \<and> state (keys pressed_session) = 0x05
   \<and> (\<exists>s'. gb_memory_write (good_sys 0) release_block pressed_session 0xff00 0x20 = Inr s'
          \<and> mem (memory s') 0xff00 = Some 0xfa)
   \<and> (\<exists>s'. gb_memory_write (good_sys 0) release_block pressed_session 0xff00 0x10 = Inr s'
          \<and> mem (memory s') 0xff00 = Some 0xff)"
proof -
  have a: "unat ((0xff00 :: u64) AND 0xffff) = 0xff00" by simp
  have m: "mem (memory pressed_session) 0xff00 \<noteq> None"
    by (simp add: pressed_session_def session_mem_high)
  have k: "state (keys pressed_session) = 0x05"
    by (simp add: pressed_session_def)
  note w1 = joypad_write [OF a m, of "good_sys 0" release_block "0x20"]
  note w2 = joypad_write [OF a m, of "good_sys 0" release_block "0x10"]
  have r1: "\<exists>s'. gb_memory_write (good_sys 0) release_block pressed_session 0xff00 0x20 = Inr s'
          \<and> mem (memory s') 0xff00 = Some 0xfa"
    using w1 k by simp
  have r2: "\<exists>s'. gb_memory_write (good_sys 0) release_block pressed_session 0xff00 0x10 = Inr s'
          \<and> mem (memory s') 0xff00 = Some 0xff"
    using w2 k by simp
  show ?thesis using a m k r1 r2 by blast
qed

section \<open>The DMA register\<close>

text \<open>
  C9.  A store of \<open>v\<close> to \<open>0xff46\<close> stores \<open>v\<close> there and copies the 160 bytes that start at
  \<open>v << 8\<close> into \<open>[0xfe00, 0xfea0)\<close>, within the same call.  Afterwards every byte
  \<open>0xfe00 + i\<close> equals the byte \<open>(v << 8) + i\<close>, and it is the byte the source held before
  the call (for the page \<open>0xff\<close> the source contains \<open>0xff46\<close> itself, which already holds
  \<open>v\<close> when the copy reads it).  The byte at \<open>0xff46\<close> is \<open>v\<close>, and no byte outside the
  destination and \<open>0xff46\<close> changes.  The register and the destination are mapped in every
  state of a session (\<open>reachable_rw\<close>); the source is, too, unless it lies in the ROM window
  after a failed remapping.
\<close>

theorem dma_write:
  assumes "unat (addr AND 0xffff) = 0xff46"
    and "src = unat (ucast (v AND 0xff) :: u8) * 0x100"
    and "mem (memory s) 0xff46 \<noteq> None"
    and "accessible (mem (memory s)) 0xfe00 0xa0"
    and "accessible (mem (memory s)) src 0xa0"
  shows "\<exists>s'. gb_memory_write os fb s addr v = Inr s'
     \<and> s' = s\<lparr>memory := (memory s)\<lparr>mem := mem (memory s')\<rparr>\<rparr>
     \<and> (\<forall>i\<in>{0..<0xa0}.
          mem (memory s') (0xfe00 + i) = mem (memory s') (src + i)
        \<and> mem (memory s') (0xfe00 + i) =
            (if src + i = 0xff46 then Some (ucast (v AND 0xff)) else mem (memory s) (src + i)))
     \<and> (\<forall>x. x \<notin> {0xfe00..<0xfea0} \<and> x \<noteq> 0xff46 \<longrightarrow> mem (memory s') x = mem (memory s) x)
     \<and> mem (memory s') 0xff46 = Some (ucast (v AND 0xff))"
proof -
  let ?v = "ucast (v AND 0xff) :: u8"
  let ?w = "(mem (memory s))(0xff46 \<mapsto> ?v)"
  have bound: "unat ?v < 0x100"
    using unsigned_less [of ?v, where ?'a = nat] by simp
  have acc: "accessible ?w 0xfe00 0xa0" "accessible ?w src 0xa0"
    using assms(4,5) by (auto simp: accessible_def)
  have w: "gb_memory_write os fb s addr v =
     Inr (s\<lparr>memory := (memory s)\<lparr>mem := copy_bytes ?w 0xfe00 ?w src 0xa0\<rparr>\<rparr>)"
    using assms(1,2,3) acc
    by (simp add: gb_memory_write_def Let_def set_mem_def poke_def memcpy_chk_def)
  have page: "src = 0xfe00 \<or> (\<forall>i. i < 0xa0 \<longrightarrow> \<not> (0xfe00 \<le> src + i \<and> src + i < 0xfea0))"
    using bound assms(2) by arith
  show ?thesis
    unfolding w using page
    by (auto simp: copy_bytes_def)
qed

theorem dma_write_witness:
  "unat ((0xff46 :: u64) AND 0xffff) = 0xff46
   \<and> mem (memory dma_session) 0xff46 \<noteq> None
   \<and> accessible (mem (memory dma_session)) 0xfe00 0xa0
   \<and> accessible (mem (memory dma_session)) 0x3000 0xa0
   \<and> mem (memory dma_session) 0x3007 = Some 7 \<and> mem (memory dma_session) 0x309f = Some 0x9f
   \<and> (\<exists>s'. gb_memory_write (good_sys 0) release_block dma_session 0xff46 0x30 = Inr s'
          \<and> mem (memory s') 0xfe00 = Some 0 \<and> mem (memory s') 0xfe07 = Some 7
          \<and> mem (memory s') 0xfe9f = Some 0x9f \<and> mem (memory s') 0xff46 = Some 0x30)"
proof -
  have a: "unat ((0xff46 :: u64) AND 0xffff) = 0xff46" by simp
  have src: "(0x3000 :: nat) = unat (ucast ((0x30 :: u64) AND 0xff) :: u8) * 0x100" by simp
  have m: "mem (memory dma_session) 0xff46 \<noteq> None"
    by (simp add: dma_session_def session_memory_def map_anon_def)
  have d: "accessible (mem (memory dma_session)) 0xfe00 0xa0"
    by (simp add: accessible_def dma_session_def session_memory_def map_anon_def)
  have s: "accessible (mem (memory dma_session)) 0x3000 0xa0"
    by (simp add: accessible_def dma_session_def)
  have b: "mem (memory dma_session) 0x3000 = Some 0 \<and> mem (memory dma_session) 0x3007 = Some 7
     \<and> mem (memory dma_session) 0x309f = Some 0x9f"
    by (simp add: dma_session_def)
  from dma_write [OF a src m d s, of "good_sys 0" release_block]
  obtain s' where w: "gb_memory_write (good_sys 0) release_block dma_session 0xff46 0x30 = Inr s'"
    and c: "\<forall>i\<in>{0..<0xa0}. mem (memory s') (0xfe00 + i) =
            (if 0x3000 + i = 0xff46 then Some (ucast ((0x30 :: u64) AND 0xff))
             else mem (memory dma_session) (0x3000 + i))"
    and r: "mem (memory s') 0xff46 = Some (ucast ((0x30 :: u64) AND 0xff))"
    by blast
  have "mem (memory s') 0xfe00 = Some 0" using c [THEN bspec, of 0] b by simp
  moreover have "mem (memory s') 0xfe07 = Some 7" using c [THEN bspec, of 7] b by simp
  moreover have "mem (memory s') 0xfe9f = Some 0x9f" using c [THEN bspec, of "0x9f"] b by simp
  moreover have "mem (memory s') 0xff46 = Some 0x30" using r by simp
  ultimately show ?thesis using a m d s b w by blast
qed

section \<open>Selecting the current RAM bank again\<close>

text \<open>
  C10.  If the clock register is exposed (\<open>rtc_access\<close> true) and a RAM bank selection names
  the bank that is already current, \<open>gb_memory_change_ram_bank\<close> returns at its first test
  and changes nothing: the window is not reloaded from the bank store, \<open>rtc_access\<close> stays
  true, and no field of the memory state changes.  So on an MBC3 the store of such a bank
  number (at most 4) to \<open>[0x4000, 0x6000)\<close> leaves the whole machine as it was.
\<close>

theorem ram_bank_reselect_noop:
  assumes "rtc_access m" and "current_ram_bank m = n"
  shows "gb_memory_change_ram_bank m n = Inr m
     \<and> (\<forall>os fb s addr v.
          memory s = m \<and> mbc m \<in> {MBC3, MBC3_RAM_BAT, MBC3_TIMER_RAM_BAT}
          \<and> 0x4000 \<le> unat (addr AND 0xffff) \<and> unat (addr AND 0xffff) < 0x6000
          \<and> (ucast (v AND 0xff) :: u8) \<le> 4 \<and> uint (ucast (v AND 0xff) :: u8) = n
          \<longrightarrow> gb_memory_write os fb s addr v = Inr s)"
proof -
  have noop: "gb_memory_change_ram_bank m n = Inr m"
    using assms(2) by (simp add: gb_memory_change_ram_bank_def)
  have "gb_memory_write os fb s addr v = Inr s"
    if "memory s = m" and "mbc m \<in> {MBC3, MBC3_RAM_BAT, MBC3_TIMER_RAM_BAT}"
      and "0x4000 \<le> unat (addr AND 0xffff)" and "unat (addr AND 0xffff) < 0x6000"
      and "(ucast (v AND 0xff) :: u8) \<le> 4" and "uint (ucast (v AND 0xff) :: u8) = n"
    for os fb s addr v
  proof -
    have "unat (addr AND 0xffff) < 0x8000" using that(4) by simp
    from write_low [OF refl this] show ?thesis
      using that noop by (simp add: mbc_write_mbc3 mbc3_write_def)
  qed
  then show ?thesis using noop by blast
qed

theorem ram_bank_reselect_noop_witness:
  "rtc_access (memory rtc_session) \<and> current_ram_bank (memory rtc_session) = 0
   \<and> mbc (memory rtc_session) = MBC3
   \<and> gb_memory_write (good_sys 0x11) release_block (session 0x11) 0x4000 0x08 = Inr rtc_session
   \<and> gb_memory_change_ram_bank (memory rtc_session) 0 = Inr (memory rtc_session)
   \<and> gb_memory_write (good_sys 0x11) release_block rtc_session 0x4000 0x00 = Inr rtc_session"
proof -
  have r: "rtc_access (memory rtc_session)"
    and c: "current_ram_bank (memory rtc_session) = 0"
    and k: "mbc (memory rtc_session) = MBC3"
    by (simp_all add: rtc_session_def session_def session_memory_def header_type_def)
  note t = ram_bank_reselect_noop [OF r c]
  have "gb_memory_write (good_sys 0x11) release_block rtc_session 0x4000 0x00 = Inr rtc_session"
    using t [THEN conjunct2, rule_format, of rtc_session "0x4000" "0x00" "good_sys 0x11" release_block] k
    by simp
  then show ?thesis using r c k t rtc_expose_write by blast
qed

end
